theory Spec2Isabelle
  imports Main "HOL-Library.Sublist"
begin

section \<open>The block service of \<^verbatim>\<open>blockservice/blockservice.go\<close>\<close>

text \<open>
  The block service answers reads from a local block store and falls back to a network
  exchange; writes go to the store and are announced to the exchange and to a provider.
  Store, exchange, provider and the hash validator are interfaces of other packages, so
  they are parameters here: every operation of a collaborator is a function on an
  arbitrary world \<open>'w\<close> that returns its Go result and the next world. The service's own
  functions pass a state that holds this world and a transcript of every call made to a
  collaborator, with the result the call returned.

  Left out: the tracing spans and the logger calls (they affect no result and no call
  to a collaborator), the \<^verbatim>\<open>ctx\<close> argument where it is only handed on, and the
  functions \<^verbatim>\<open>AddBlocks\<close> and \<^verbatim>\<open>Close\<close>, of which nothing is proved here.
\<close>

subsection \<open>Data\<close>

datatype cid = MkCid (mhCode: nat) (mhDigest: string)

datatype block = Block (Cid: cid) (RawData: string)

datatype error = ErrNotFound cid | ErrOther string

fun IsNotFound :: "error \<Rightarrow> bool" where
  "IsNotFound (ErrNotFound c) = True"
| "IsNotFound (ErrOther m) = False"

text \<open>
  \<^verbatim>\<open>verifcid.Allowlist\<close> is the interface \<^verbatim>\<open>IsAllowed(code uint64) bool\<close>.
  \<^verbatim>\<open>verifcid.ValidateCid\<close> lives in another package; it is the parameter
  \<open>ValidateCid\<close> of every function below, \<open>None\<close> standing for a nil error.
\<close>

type_synonym allowlist = "nat \<Rightarrow> bool"

type_synonym validator = "allowlist \<Rightarrow> cid \<Rightarrow> error option"

text \<open>The transcript: one event for each call to a collaborator, with what it returned.\<close>

datatype event =
    EvValidateCid cid "error option"
  | EvHas cid bool "error option"
  | EvGet cid "error + block"
  | EvPut block "error option"
  | EvDeleteBlock cid "error option"
  | EvFetchGetBlock cid "error + block"
  | EvFetchGetBlocks "cid list" "error option"
  | EvNotifyNewBlocks "block list" "error option"
  | EvProvide cid "error option"
  | EvNewSession
  | EvSend block

record 'w state =
  world :: 'w
  trace :: "event list"

text \<open>The interfaces \<^verbatim>\<open>blockstore.Blockstore\<close>, \<^verbatim>\<open>exchange.Fetcher\<close>,
  \<^verbatim>\<open>exchange.Interface\<close> (with the optional \<^verbatim>\<open>SessionExchange\<close>) and
  \<^verbatim>\<open>provider.Provider\<close>, restricted to the methods the modelled functions call.
  A channel of blocks is its receive operation: \<open>Some b\<close> is the next block, \<open>None\<close>
  says that the channel is closed.\<close>

type_synonym 'w chan = "'w \<Rightarrow> block option \<times> 'w"

record 'w Blockstore =
  bs_Has :: "cid \<Rightarrow> 'w \<Rightarrow> (bool \<times> error option) \<times> 'w"
  bs_Get :: "cid \<Rightarrow> 'w \<Rightarrow> (error + block) \<times> 'w"
  bs_Put :: "block \<Rightarrow> 'w \<Rightarrow> error option \<times> 'w"
  bs_DeleteBlock :: "cid \<Rightarrow> 'w \<Rightarrow> error option \<times> 'w"

record 'w Fetcher =
  f_GetBlock :: "cid \<Rightarrow> 'w \<Rightarrow> (error + block) \<times> 'w"
  f_GetBlocks :: "cid list \<Rightarrow> 'w \<Rightarrow> (error + 'w chan) \<times> 'w"

record 'w Exchange =
  ex_Fetcher :: "'w Fetcher"
  ex_NotifyNewBlocks :: "block list \<Rightarrow> 'w \<Rightarrow> error option \<times> 'w"
  ex_NewSession :: "('w \<Rightarrow> 'w Fetcher \<times> 'w) option"

record 'w Provider =
  p_Provide :: "cid \<Rightarrow> 'w \<Rightarrow> error option \<times> 'w"

text \<open>The caller's side of a \<^verbatim>\<open>GetBlocks\<close> call: \<open>ctx_Done\<close> is asked at each
  \<^verbatim>\<open>select\<close> and answers whether the \<^verbatim>\<open><-ctx.Done()\<close> case is the one taken. Which
  case of a \<^verbatim>\<open>select\<close> is taken is the caller's and the scheduler's choice; a
  \<^verbatim>\<open>select\<close> none of whose cases ever becomes ready is not represented.\<close>

record 'w Context =
  ctx_Done :: "'w \<Rightarrow> bool \<times> 'w"

record 'w blockService =
  allowlist :: allowlist
  blockstore :: "'w Blockstore"
  exchange :: "'w Exchange option"
  provider :: "'w Provider option"
  checkFirst :: bool

subsection \<open>Calls to the collaborators\<close>

definition logEv :: "event \<Rightarrow> ('w, 'z) state_scheme \<Rightarrow> ('w, 'z) state_scheme" where
  "logEv e st = st\<lparr>trace := trace st @ [e]\<rparr>"

definition callValidateCid ::
  "validator \<Rightarrow> allowlist \<Rightarrow> cid \<Rightarrow> ('w, 'z) state_scheme \<Rightarrow> error option \<times> ('w, 'z) state_scheme" where
  "callValidateCid ValidateCid al c st =
     (let r = ValidateCid al c in (r, logEv (EvValidateCid c r) st))"

definition callHas ::
  "'w Blockstore \<Rightarrow> cid \<Rightarrow> ('w, 'z) state_scheme \<Rightarrow> (bool \<times> error option) \<times> ('w, 'z) state_scheme" where
  "callHas bs c st =
     (let ((has, err), w) = bs_Has bs c (world st)
      in ((has, err), logEv (EvHas c has err) (st\<lparr>world := w\<rparr>)))"

definition callGet ::
  "'w Blockstore \<Rightarrow> cid \<Rightarrow> ('w, 'z) state_scheme \<Rightarrow> (error + block) \<times> ('w, 'z) state_scheme" where
  "callGet bs c st =
     (let (r, w) = bs_Get bs c (world st) in (r, logEv (EvGet c r) (st\<lparr>world := w\<rparr>)))"

definition callPut ::
  "'w Blockstore \<Rightarrow> block \<Rightarrow> ('w, 'z) state_scheme \<Rightarrow> error option \<times> ('w, 'z) state_scheme" where
  "callPut bs b st =
     (let (r, w) = bs_Put bs b (world st) in (r, logEv (EvPut b r) (st\<lparr>world := w\<rparr>)))"

definition callDeleteBlock ::
  "'w Blockstore \<Rightarrow> cid \<Rightarrow> ('w, 'z) state_scheme \<Rightarrow> error option \<times> ('w, 'z) state_scheme" where
  "callDeleteBlock bs c st =
     (let (r, w) = bs_DeleteBlock bs c (world st)
      in (r, logEv (EvDeleteBlock c r) (st\<lparr>world := w\<rparr>)))"

definition callFetchGetBlock ::
  "'w Fetcher \<Rightarrow> cid \<Rightarrow> ('w, 'z) state_scheme \<Rightarrow> (error + block) \<times> ('w, 'z) state_scheme" where
  "callFetchGetBlock f c st =
     (let (r, w) = f_GetBlock f c (world st)
      in (r, logEv (EvFetchGetBlock c r) (st\<lparr>world := w\<rparr>)))"

definition callFetchGetBlocks ::
  "'w Fetcher \<Rightarrow> cid list \<Rightarrow> ('w, 'z) state_scheme \<Rightarrow> (error + 'w chan) \<times> ('w, 'z) state_scheme" where
  "callFetchGetBlocks f ks st =
     (let (r, w) = f_GetBlocks f ks (world st)
      in (r, logEv (EvFetchGetBlocks ks (case r of Inl e \<Rightarrow> Some e | Inr ch \<Rightarrow> None))
                (st\<lparr>world := w\<rparr>)))"

definition callNotifyNewBlocks ::
  "'w Exchange \<Rightarrow> block list \<Rightarrow> ('w, 'z) state_scheme \<Rightarrow> error option \<times> ('w, 'z) state_scheme" where
  "callNotifyNewBlocks ex bs st =
     (let (r, w) = ex_NotifyNewBlocks ex bs (world st)
      in (r, logEv (EvNotifyNewBlocks bs r) (st\<lparr>world := w\<rparr>)))"

definition callProvide ::
  "'w Provider \<Rightarrow> cid \<Rightarrow> ('w, 'z) state_scheme \<Rightarrow> error option \<times> ('w, 'z) state_scheme" where
  "callProvide p c st =
     (let (r, w) = p_Provide p c (world st)
      in (r, logEv (EvProvide c r) (st\<lparr>world := w\<rparr>)))"

text \<open>\<^verbatim>\<open>select { case out <- b: ; case <-ctx.Done(): return }\<close>: \<open>True\<close> when the block
  was sent on the output channel, \<open>False\<close> when the context was done first.\<close>

definition selectSend ::
  "'w Context \<Rightarrow> block \<Rightarrow> ('w, 'z) state_scheme \<Rightarrow> bool \<times> ('w, 'z) state_scheme" where
  "selectSend ctx b st =
     (let (d, w) = ctx_Done ctx (world st)
      in if d then (False, st\<lparr>world := w\<rparr>)
         else (True, logEv (EvSend b) (st\<lparr>world := w\<rparr>)))"

text \<open>\<^verbatim>\<open>select { case v, ok := <-rblocks: ... ; case <-ctx.Done(): return }\<close>: \<open>None\<close>
  when the loop has to return (context done, or channel closed), else the block.\<close>

definition selectRecv ::
  "'w Context \<Rightarrow> 'w chan \<Rightarrow> ('w, 'z) state_scheme \<Rightarrow> block option \<times> ('w, 'z) state_scheme" where
  "selectRecv ctx rblocks st =
     (let (d, w) = ctx_Done ctx (world st)
      in if d then (None, st\<lparr>world := w\<rparr>)
         else (let (v, w') = rblocks w in (v, st\<lparr>world := w'\<rparr>)))"

subsection \<open>The service\<close>

text \<open>Every \<^verbatim>\<open>BlockService\<close> this package constructs is a \<^verbatim>\<open>*blockService\<close>, which
  is both a \<^verbatim>\<open>BoundedBlockService\<close> and a \<^verbatim>\<open>ProvidingBlockService\<close>: the two type
  assertions succeed.\<close>

definition grabAllowlistFromBlockservice :: "'w blockService \<Rightarrow> allowlist" where
  "grabAllowlistFromBlockservice bs = allowlist bs"

definition grabProviderFromBlockservice :: "'w blockService \<Rightarrow> 'w Provider option" where
  "grabProviderFromBlockservice bs = provider bs"

text \<open>\<^verbatim>\<open>AddBlock\<close>; the result is the returned error, \<open>None\<close> for nil. A failure of
  \<^verbatim>\<open>NotifyNewBlocks\<close> or \<^verbatim>\<open>Provide\<close> is only logged there.\<close>

definition AddBlock ::
  "validator \<Rightarrow> 'w blockService \<Rightarrow> block \<Rightarrow> ('w, 'z) state_scheme \<Rightarrow> error option \<times> ('w, 'z) state_scheme" where
  "AddBlock ValidateCid s b st0 =
     (let c = Cid b in
      case callValidateCid ValidateCid (allowlist s) c st0 of
        (Some err, st1) \<Rightarrow> (Some err, st1)
      | (None, st1) \<Rightarrow>
          (case (if checkFirst s
                 then (case callHas (blockstore s) c st1 of
                         ((has, err), st2) \<Rightarrow> (if has \<or> err \<noteq> None then Some err else None, st2))
                 else (None, st1)) of
             (Some ret, st2) \<Rightarrow> (ret, st2)
           | (None, st2) \<Rightarrow>
               (case callPut (blockstore s) b st2 of
                  (Some err, st3) \<Rightarrow> (Some err, st3)
                | (None, st3) \<Rightarrow>
                    (let st4 = (case exchange s of
                                  None \<Rightarrow> st3
                                | Some ex \<Rightarrow> snd (callNotifyNewBlocks ex [b] st3));
                         st5 = (case provider s of
                                  None \<Rightarrow> st4
                                | Some p \<Rightarrow> snd (callProvide p (Cid b) st4))
                     in (None, st5)))))"

text \<open>\<^verbatim>\<open>getBlock\<close>, shared by the service and by a session; \<open>fetchFactory\<close> may change
  the state (a session creates its fetcher on the first call).\<close>

definition getBlock ::
  "validator \<Rightarrow> cid \<Rightarrow> 'w blockService \<Rightarrow>
   (('w, 'z) state_scheme \<Rightarrow> 'w Fetcher option \<times> ('w, 'z) state_scheme) \<Rightarrow>
   ('w, 'z) state_scheme \<Rightarrow> (error + block) \<times> ('w, 'z) state_scheme" where
  "getBlock ValidateCid c bs fetchFactory st0 =
     (case callValidateCid ValidateCid (grabAllowlistFromBlockservice bs) c st0 of
        (Some err, st1) \<Rightarrow> (Inl err, st1)
      | (None, st1) \<Rightarrow>
          (case callGet (blockstore bs) c st1 of
             (Inr blk, st2) \<Rightarrow> (Inr blk, st2)
           | (Inl err, st2) \<Rightarrow>
               if \<not> IsNotFound err then (Inl err, st2)
               else
                 (case fetchFactory st2 of
                    (None, st3) \<Rightarrow> (Inl err, st3)
                  | (Some fetch, st3) \<Rightarrow>
                      (case callFetchGetBlock fetch c st3 of
                         (Inl err, st4) \<Rightarrow> (Inl err, st4)
                       | (Inr blk, st4) \<Rightarrow>
                           (case callPut (blockstore bs) blk st4 of
                              (Some err, st5) \<Rightarrow> (Inl err, st5)
                            | (None, st5) \<Rightarrow>
                                (case (case exchange bs of
                                         None \<Rightarrow> (None, st5)
                                       | Some ex \<Rightarrow> callNotifyNewBlocks ex [blk] st5) of
                                   (Some err, st6) \<Rightarrow> (Inl err, st6)
                                 | (None, st6) \<Rightarrow>
                                     (case (case grabProviderFromBlockservice bs of
                                              None \<Rightarrow> (None, st6)
                                            | Some p \<Rightarrow> callProvide p (Cid blk) st6) of
                                        (Some err, st7) \<Rightarrow> (Inl err, st7)
                                      | (None, st7) \<Rightarrow> (Inr blk, st7))))))))"

definition getExchangeFetcher ::
  "'w blockService \<Rightarrow> ('w, 'z) state_scheme \<Rightarrow> 'w Fetcher option \<times> ('w, 'z) state_scheme" where
  "getExchangeFetcher s st = (map_option ex_Fetcher (exchange s), st)"

definition GetBlock ::
  "validator \<Rightarrow> 'w blockService \<Rightarrow> cid \<Rightarrow> ('w, 'z) state_scheme \<Rightarrow>
   (error + block) \<times> ('w, 'z) state_scheme" where
  "GetBlock ValidateCid s c st = getBlock ValidateCid c s (getExchangeFetcher s) st"

definition DeleteBlock ::
  "'w blockService \<Rightarrow> cid \<Rightarrow> ('w, 'z) state_scheme \<Rightarrow> error option \<times> ('w, 'z) state_scheme" where
  "DeleteBlock s c st = callDeleteBlock (blockstore s) c st"

subsection \<open>\<^verbatim>\<open>getBlocks\<close>\<close>

text \<open>The first scan, \<^verbatim>\<open>for lastAllValidIndex, c = range ks\<close>: Go assigns the index
  of the element to \<open>lastAllValidIndex\<close> before each run of the body and leaves it there
  on \<^verbatim>\<open>break\<close> and at the end of the slice. \<open>i\<close> is the index of the head of the
  list still to scan.\<close>

fun firstScan ::
  "validator \<Rightarrow> allowlist \<Rightarrow> cid list \<Rightarrow> nat \<Rightarrow> nat \<Rightarrow> ('w, 'z) state_scheme \<Rightarrow>
   nat \<times> ('w, 'z) state_scheme" where
  "firstScan ValidateCid al [] i lastAllValidIndex st = (lastAllValidIndex, st)"
| "firstScan ValidateCid al (c # ks) i lastAllValidIndex st =
     (case callValidateCid ValidateCid al c st of
        (Some err, st1) \<Rightarrow> (i, st1)
      | (None, st1) \<Rightarrow> firstScan ValidateCid al ks (Suc i) i st1)"

text \<open>The second loop, over \<^verbatim>\<open>ks[lastAllValidIndex:]\<close>, appending to \<open>ks2\<close>.\<close>

fun secondPass ::
  "validator \<Rightarrow> allowlist \<Rightarrow> cid list \<Rightarrow> cid list \<Rightarrow> ('w, 'z) state_scheme \<Rightarrow>
   cid list \<times> ('w, 'z) state_scheme" where
  "secondPass ValidateCid al [] ks2 st = (ks2, st)"
| "secondPass ValidateCid al (c # ks) ks2 st =
     (case callValidateCid ValidateCid al c st of
        (None, st1) \<Rightarrow> secondPass ValidateCid al ks (ks2 @ [c]) st1
      | (Some err, st1) \<Rightarrow> secondPass ValidateCid al ks ks2 st1)"

definition validatePhase ::
  "validator \<Rightarrow> allowlist \<Rightarrow> cid list \<Rightarrow> ('w, 'z) state_scheme \<Rightarrow>
   cid list \<times> ('w, 'z) state_scheme" where
  "validatePhase ValidateCid al ks st =
     (case firstScan ValidateCid al ks 0 0 st of
        (lastAllValidIndex, st1) \<Rightarrow>
          if lastAllValidIndex \<noteq> length ks
          then secondPass ValidateCid al (drop lastAllValidIndex ks)
                 (take lastAllValidIndex ks) st1
          else (ks, st1))"

text \<open>The loop over the validated identifiers. The first component of the result is
  \<open>False\<close> when the goroutine returned from inside the loop (context done).\<close>

fun localPhase ::
  "'w Context \<Rightarrow> 'w Blockstore \<Rightarrow> cid list \<Rightarrow> cid list \<Rightarrow> ('w, 'z) state_scheme \<Rightarrow>
   (bool \<times> cid list) \<times> ('w, 'z) state_scheme" where
  "localPhase ctx bs [] misses st = ((True, misses), st)"
| "localPhase ctx bs (c # ks) misses st =
     (case callGet bs c st of
        (Inl err, st1) \<Rightarrow> localPhase ctx bs ks (misses @ [c]) st1
      | (Inr hit, st1) \<Rightarrow>
          (case selectSend ctx hit st1 of
             (False, st2) \<Rightarrow> ((False, misses), st2)
           | (True, st2) \<Rightarrow> localPhase ctx bs ks misses st2))"

text \<open>The \<^verbatim>\<open>for { ... }\<close> loop that consumes the exchange's channel. The channel may
  deliver blocks for ever, so the loop is a partial function: \<open>None\<close> says that the
  goroutine never returns, \<open>Some st\<close> that it returned (and closed \<open>out\<close>) in state \<open>st\<close>.\<close>

partial_function (option) netLoop ::
  "'w Context \<Rightarrow> 'w Blockstore \<Rightarrow> 'w Exchange option \<Rightarrow> 'w Provider option \<Rightarrow> 'w chan \<Rightarrow>
   ('w, 'z) state_scheme \<Rightarrow> ('w, 'z) state_scheme option" where
  "netLoop ctx bs ex prov rblocks st =
     (case selectRecv ctx rblocks st of
        (None, st1) \<Rightarrow> Some st1
      | (Some b, st1) \<Rightarrow>
          (case callPut bs b st1 of
             (Some err, st2) \<Rightarrow> Some st2
           | (None, st2) \<Rightarrow>
               (case (case ex of
                        None \<Rightarrow> (None, st2)
                      | Some e \<Rightarrow> callNotifyNewBlocks e [b] st2) of
                  (Some err, st3) \<Rightarrow> Some st3
                | (None, st3) \<Rightarrow>
                    (case (case prov of
                             None \<Rightarrow> (None, st3)
                           | Some p \<Rightarrow> callProvide p (Cid b) st3) of
                       (Some err, st4) \<Rightarrow> Some st4
                     | (None, st4) \<Rightarrow>
                         (case selectSend ctx b st4 of
                            (sent, st5) \<Rightarrow>
                              if sent then netLoop ctx bs ex prov rblocks st5
                              else Some st5)))))"

declare netLoop.simps [code]

definition getBlocks ::
  "validator \<Rightarrow> 'w Context \<Rightarrow> cid list \<Rightarrow> 'w blockService \<Rightarrow>
   (('w, 'z) state_scheme \<Rightarrow> 'w Fetcher option \<times> ('w, 'z) state_scheme) \<Rightarrow>
   ('w, 'z) state_scheme \<Rightarrow> ('w, 'z) state_scheme option" where
  "getBlocks ValidateCid ctx ks blockservice fetchFactory st0 =
     (case validatePhase ValidateCid (grabAllowlistFromBlockservice blockservice) ks st0 of
        (ks', st1) \<Rightarrow>
          (case localPhase ctx (blockstore blockservice) ks' [] st1 of
             ((False, misses), st2) \<Rightarrow> Some st2
           | ((True, misses), st2) \<Rightarrow>
               (case fetchFactory st2 of
                  (fetch, st3) \<Rightarrow>
                    (case (if misses = [] then None else fetch) of
                       None \<Rightarrow> Some st3
                     | Some f \<Rightarrow>
                         (case callFetchGetBlocks f misses st3 of
                            (Inl err, st4) \<Rightarrow> Some st4
                          | (Inr rblocks, st4) \<Rightarrow>
                              netLoop ctx (blockstore blockservice) (exchange blockservice)
                                (grabProviderFromBlockservice blockservice) rblocks st4)))))"

definition GetBlocks ::
  "validator \<Rightarrow> 'w blockService \<Rightarrow> 'w Context \<Rightarrow> cid list \<Rightarrow> ('w, 'z) state_scheme \<Rightarrow>
   ('w, 'z) state_scheme option" where
  "GetBlocks ValidateCid s ctx ks st = getBlocks ValidateCid ctx ks s (getExchangeFetcher s) st"

subsection \<open>Sessions\<close>

text \<open>\<open>createSession\<close> is the \<^verbatim>\<open>sync.Once\<close>: \<open>True\<close> once its function has run. The
  session is part of the state, since \<^verbatim>\<open>grabSession\<close> writes to it.\<close>

record 'w Session =
  createSession :: bool
  s_bs :: "'w blockService"
  ses :: "'w Fetcher option"
  sesctx :: "'w Context option"

record 'w sstate = "'w state" +
  session :: "'w Session"

definition callNewSession ::
  "('w \<Rightarrow> 'w Fetcher \<times> 'w) \<Rightarrow> ('w, 'z) state_scheme \<Rightarrow> 'w Fetcher \<times> ('w, 'z) state_scheme" where
  "callNewSession newSession st =
     (let (f, w) = newSession (world st) in (f, logEv EvNewSession (st\<lparr>world := w\<rparr>)))"

definition NewSession :: "'w Context \<Rightarrow> 'w blockService \<Rightarrow> 'w Session" where
  "NewSession ctx bs = \<lparr>createSession = False, s_bs = bs, ses = None, sesctx = Some ctx\<rparr>"

definition grabSession ::
  "('w, 'z) sstate_scheme \<Rightarrow> 'w Fetcher option \<times> ('w, 'z) sstate_scheme" where
  "grabSession st =
     (if createSession (session st) then (ses (session st), st)
      else
        (let st1 = (case exchange (s_bs (session st)) of
                      None \<Rightarrow> st
                    | Some ex \<Rightarrow>
                        (case ex_NewSession ex of
                           None \<Rightarrow> st\<lparr>session := (session st)\<lparr>ses := Some (ex_Fetcher ex)\<rparr>\<rparr>
                         | Some newSession \<Rightarrow>
                             (case callNewSession newSession st of
                                (f, st') \<Rightarrow> st'\<lparr>session := (session st')\<lparr>ses := Some f\<rparr>\<rparr>)));
             st2 = st1\<lparr>session := (session st1)\<lparr>sesctx := None, createSession := True\<rparr>\<rparr>
         in (ses (session st2), st2)))"

definition Session_GetBlock ::
  "validator \<Rightarrow> cid \<Rightarrow> ('w, 'z) sstate_scheme \<Rightarrow> (error + block) \<times> ('w, 'z) sstate_scheme" where
  "Session_GetBlock ValidateCid c st = getBlock ValidateCid c (s_bs (session st)) grabSession st"

definition Session_GetBlocks ::
  "validator \<Rightarrow> 'w Context \<Rightarrow> cid list \<Rightarrow> ('w, 'z) sstate_scheme \<Rightarrow>
   ('w, 'z) sstate_scheme option" where
  "Session_GetBlocks ValidateCid ctx ks st =
     getBlocks ValidateCid ctx ks (s_bs (session st)) grabSession st"

subsection \<open>In-memory collaborators\<close>

text \<open>A concrete world on which the functions above can be run: a store that keeps its
  blocks in a list, a network that holds the blocks of \<open>remote\<close>, and switches that make
  single operations fail.\<close>

record mem =
  stored :: "block list"
  remote :: "block list"
  inflight :: "block list"
  getFails :: bool
  putFails :: bool
  notifyFails :: bool
  provideFails :: bool

definition memStore :: "mem Blockstore" where
  "memStore =
     \<lparr>bs_Has = (\<lambda>c w. ((find (\<lambda>b. Cid b = c) (stored w) \<noteq> None, None), w)),
      bs_Get = (\<lambda>c w.
        (if getFails w then Inl (ErrOther ''io'')
         else (case find (\<lambda>b. Cid b = c) (stored w) of
                 None \<Rightarrow> Inl (ErrNotFound c)
               | Some b \<Rightarrow> Inr b), w)),
      bs_Put = (\<lambda>b w.
        if putFails w then (Some (ErrOther ''put''), w)
        else (None, w\<lparr>stored := stored w @ [b]\<rparr>)),
      bs_DeleteBlock = (\<lambda>c w. (None, w\<lparr>stored := filter (\<lambda>b. Cid b \<noteq> c) (stored w)\<rparr>))\<rparr>"

definition memRecv :: "mem chan" where
  "memRecv w = (case inflight w of [] \<Rightarrow> (None, w) | b # bs \<Rightarrow> (Some b, w\<lparr>inflight := bs\<rparr>))"

definition memFetcher :: "mem Fetcher" where
  "memFetcher =
     \<lparr>f_GetBlock = (\<lambda>c w.
        (case find (\<lambda>b. Cid b = c) (remote w) of
           None \<Rightarrow> Inl (ErrNotFound c)
         | Some b \<Rightarrow> Inr b, w)),
      f_GetBlocks = (\<lambda>ks w.
        (Inr memRecv, w\<lparr>inflight := filter (\<lambda>b. List.member ks (Cid b)) (remote w)\<rparr>))\<rparr>"

definition memExchange :: "mem Exchange" where
  "memExchange =
     \<lparr>ex_Fetcher = memFetcher,
      ex_NotifyNewBlocks = (\<lambda>bs w.
        (if notifyFails w then Some (ErrOther ''notify'') else None, w)),
      ex_NewSession = Some (\<lambda>w. (memFetcher, w))\<rparr>"

definition memProvider :: "mem Provider" where
  "memProvider =
     \<lparr>p_Provide = (\<lambda>c w. (if provideFails w then Some (ErrOther ''provide'') else None, w))\<rparr>"

definition memContext :: "mem Context" where
  "memContext = \<lparr>ctx_Done = (\<lambda>w. (False, w))\<rparr>"

definition memWorld :: "block list \<Rightarrow> block list \<Rightarrow> mem" where
  "memWorld here there =
     \<lparr>stored = here, remote = there, inflight = [], getFails = False, putFails = False,
      notifyFails = False, provideFails = False\<rparr>"

definition start :: "'w \<Rightarrow> 'w state" where
  "start w = \<lparr>world = w, trace = []\<rparr>"

text \<open>A validator that looks at the hash function only, and an allowlist that admits
  sha2-256 (code 18).\<close>

definition testValidateCid :: validator where
  "testValidateCid al c = (if al (mhCode c) then None else Some (ErrOther ''insecure hash''))"

definition testAllowlist :: allowlist where
  "testAllowlist code = (code = 18)"

definition memService :: "mem blockService" where
  "memService =
     \<lparr>allowlist = testAllowlist, blockstore = memStore, exchange = Some memExchange,
      provider = Some memProvider, checkFirst = True\<rparr>"

definition memOffline :: "mem blockService" where
  "memOffline = memService\<lparr>exchange := None\<rparr>"

definition memNoProvider :: "mem blockService" where
  "memNoProvider = memService\<lparr>provider := None\<rparr>"

definition blkA :: block where "blkA = Block (MkCid 18 ''a'') ''alpha''"
definition blkB :: block where "blkB = Block (MkCid 18 ''b'') ''beta''"
definition blkC :: block where "blkC = Block (MkCid 18 ''c'') ''gamma''"
definition blkBad :: block where "blkBad = Block (MkCid 17 ''x'') ''weak''"

text \<open>Worlds in which the store's \<^verbatim>\<open>Get\<close>, the store's \<^verbatim>\<open>Put\<close>, the notification or the
  advertisement fails, the last three with two blocks waiting on the exchange's channel;
  and the state of a fresh session over the service.\<close>

definition ioWorld :: mem where
  "ioWorld = (memWorld [blkA] [blkB])\<lparr>getFails := True\<rparr>"

definition putFailWorld :: mem where
  "putFailWorld = (memWorld [] [blkB, blkC])\<lparr>inflight := [blkB, blkC], putFails := True\<rparr>"

definition notifyFailWorld :: mem where
  "notifyFailWorld = (memWorld [] [blkB, blkC])\<lparr>inflight := [blkB, blkC], notifyFails := True\<rparr>"

definition provideFailWorld :: mem where
  "provideFailWorld = (memWorld [] [blkB, blkC])\<lparr>inflight := [blkB, blkC], provideFails := True\<rparr>"

definition sessStart :: "mem \<Rightarrow> mem sstate" where
  "sessStart w = \<lparr>world = w, trace = [], session = NewSession memContext memService\<rparr>"

subsection \<open>Reading a transcript\<close>

fun sends :: "event list \<Rightarrow> block list" where
  "sends [] = []"
| "sends (EvSend b # tr) = b # sends tr"
| "sends (e # tr) = sends tr"

fun gets :: "event list \<Rightarrow> cid list" where
  "gets [] = []"
| "gets (EvGet c r # tr) = c # gets tr"
| "gets (e # tr) = gets tr"

fun hits :: "event list \<Rightarrow> block list" where
  "hits [] = []"
| "hits (EvGet c (Inr b) # tr) = b # hits tr"
| "hits (e # tr) = hits tr"

fun failedGets :: "event list \<Rightarrow> cid list" where
  "failedGets [] = []"
| "failedGets (EvGet c (Inl err) # tr) = c # failedGets tr"
| "failedGets (e # tr) = failedGets tr"

fun puts :: "event list \<Rightarrow> block list" where
  "puts [] = []"
| "puts (EvPut b r # tr) = b # puts tr"
| "puts (e # tr) = puts tr"

fun notifies :: "event list \<Rightarrow> block list list" where
  "notifies [] = []"
| "notifies (EvNotifyNewBlocks bs r # tr) = bs # notifies tr"
| "notifies (e # tr) = notifies tr"

fun provides :: "event list \<Rightarrow> cid list" where
  "provides [] = []"
| "provides (EvProvide c r # tr) = c # provides tr"
| "provides (e # tr) = provides tr"

fun validations :: "event list \<Rightarrow> cid list" where
  "validations [] = []"
| "validations (EvValidateCid c r # tr) = c # validations tr"
| "validations (e # tr) = validations tr"

text \<open>The local hits of a transcript with the identifiers asked for: one pair for each
  \<^verbatim>\<open>Get\<close> that returned a block.\<close>

fun localHits :: "event list \<Rightarrow> (cid \<times> block) list" where
  "localHits [] = []"
| "localHits (EvGet c (Inr b) # tr) = (c, b) # localHits tr"
| "localHits (e # tr) = localHits tr"

text \<open>The events a run added to the transcript, from the states before and after it.\<close>

definition newEvents :: "('w, 'z) state_scheme \<Rightarrow> ('w, 'z) state_scheme \<Rightarrow> event list" where
  "newEvents st st' = drop (length (trace st)) (trace st')"

text \<open>Failed calls in a transcript, and the check that a transcript ends at the first
  event of a given kind.\<close>

fun failedPut :: "event \<Rightarrow> bool" where
  "failedPut (EvPut b (Some err)) = True"
| "failedPut e = False"

fun failedNotify :: "event \<Rightarrow> bool" where
  "failedNotify (EvNotifyNewBlocks bs (Some err)) = True"
| "failedNotify e = False"

fun failedProvide :: "event \<Rightarrow> bool" where
  "failedProvide (EvProvide c (Some err)) = True"
| "failedProvide e = False"

fun nothingAfter :: "(event \<Rightarrow> bool) \<Rightarrow> event list \<Rightarrow> bool" where
  "nothingAfter P [] = True"
| "nothingAfter P (e # tr) = (if P e then tr = [] else nothingAfter P tr)"

definition failedCall :: "event \<Rightarrow> bool" where
  "failedCall e = (failedPut e \<or> failedNotify e \<or> failedProvide e)"

section \<open>Properties\<close>

lemmas call_defs = callValidateCid_def callHas_def callGet_def callPut_def callDeleteBlock_def
  callFetchGetBlock_def callFetchGetBlocks_def callNotifyNewBlocks_def callProvide_def
  callNewSession_def selectSend_def selectRecv_def logEv_def Let_def

lemmas mem_defs = memStore_def memRecv_def memFetcher_def memExchange_def memProvider_def
  memContext_def memWorld_def start_def testValidateCid_def testAllowlist_def memService_def
  blkA_def blkB_def blkC_def blkBad_def

lemma sends_append: "sends (xs @ ys) = sends xs @ sends ys"
  by (induction xs rule: sends.induct) simp_all

lemma gets_append: "gets (xs @ ys) = gets xs @ gets ys"
  by (induction xs rule: gets.induct) simp_all

lemma hits_append: "hits (xs @ ys) = hits xs @ hits ys"
  by (induction xs rule: hits.induct) simp_all

lemma failedGets_append: "failedGets (xs @ ys) = failedGets xs @ failedGets ys"
  by (induction xs rule: failedGets.induct) simp_all

lemma puts_append: "puts (xs @ ys) = puts xs @ puts ys"
  by (induction xs rule: puts.induct) simp_all

lemma notifies_append: "notifies (xs @ ys) = notifies xs @ notifies ys"
  by (induction xs rule: notifies.induct) simp_all

lemma provides_append: "provides (xs @ ys) = provides xs @ provides ys"
  by (induction xs rule: provides.induct) simp_all

lemma validations_append: "validations (xs @ ys) = validations xs @ validations ys"
  by (induction xs rule: validations.induct) simp_all

lemmas transcript_append = sends_append gets_append hits_append failedGets_append puts_append
  notifies_append provides_append validations_append

subsection \<open>Rejected identifiers\<close>

text \<open>
  C1. When the validator rejects the identifier, \<^verbatim>\<open>AddBlock\<close> and \<^verbatim>\<open>GetBlock\<close> (and
  \<^verbatim>\<open>getBlock\<close> with any fetch factory, so a session's too) return the validator's error.
  The state they leave is the state they found with the one validation added to the
  transcript: the world of the collaborators is untouched, no \<^verbatim>\<open>Has\<close>, \<^verbatim>\<open>Get\<close>,
  \<^verbatim>\<open>Put\<close>, fetch, notification or advertisement was made, and the fetch factory was not
  called.
\<close>

theorem rejected_identifier_no_interaction:
  assumes "ValidateCid (allowlist s) c = Some err"
  shows "AddBlock ValidateCid s (Block c d) st =
           (Some err, st\<lparr>trace := trace st @ [EvValidateCid c (Some err)]\<rparr>)
       \<and> getBlock ValidateCid c s fetchFactory st =
           (Inl err, st\<lparr>trace := trace st @ [EvValidateCid c (Some err)]\<rparr>)
       \<and> GetBlock ValidateCid s c st =
           (Inl err, st\<lparr>trace := trace st @ [EvValidateCid c (Some err)]\<rparr>)"
  using assms
  by (simp add: AddBlock_def getBlock_def GetBlock_def grabAllowlistFromBlockservice_def
      callValidateCid_def logEv_def Let_def)

theorem rejected_identifier_no_interaction_witness:
  "testValidateCid (allowlist memService) (MkCid 17 ''x'') = Some (ErrOther ''insecure hash'')
   \<and> AddBlock testValidateCid memService (Block (MkCid 17 ''x'') ''weak'') (start (memWorld [] [blkBad])) =
       (Some (ErrOther ''insecure hash''),
        \<lparr>world = memWorld [] [blkBad],
         trace = [EvValidateCid (MkCid 17 ''x'') (Some (ErrOther ''insecure hash''))]\<rparr>)
   \<and> GetBlock testValidateCid memService (MkCid 17 ''x'') (start (memWorld [] [blkBad])) =
       (Inl (ErrOther ''insecure hash''),
        \<lparr>world = memWorld [] [blkBad],
         trace = [EvValidateCid (MkCid 17 ''x'') (Some (ErrOther ''insecure hash''))]\<rparr>)"
proof -
  have rejected: "testValidateCid (allowlist memService) (MkCid 17 ''x'') = Some (ErrOther ''insecure hash'')"
    by (simp add: testValidateCid_def memService_def testAllowlist_def)
  show ?thesis
    using rejected
      rejected_identifier_no_interaction [of testValidateCid memService "MkCid 17 ''x''"
        "ErrOther ''insecure hash''" "''weak''" "start (memWorld [] [blkBad])"]
    by (simp add: start_def)
qed

subsection \<open>Writing one block\<close>

lemma AddBlock_present:
  assumes "ValidateCid (allowlist s) (Cid b) = None" and "checkFirst s"
    and "bs_Has (blockstore s) (Cid b) (world st) = ((True, None), w1)"
  shows "AddBlock ValidateCid s b st =
     (None, st\<lparr>world := w1,
               trace := trace st @ [EvValidateCid (Cid b) None, EvHas (Cid b) True None]\<rparr>)"
  using assms by (simp add: AddBlock_def call_defs)

lemma AddBlock_absent:
  assumes "ValidateCid (allowlist s) (Cid b) = None" and "checkFirst s"
    and "bs_Has (blockstore s) (Cid b) (world st) = ((False, None), w1)"
    and "bs_Put (blockstore s) b w1 = (None, w2)"
  shows "\<exists>w3. AddBlock ValidateCid s b st =
     (None, st\<lparr>world := w3,
               trace := trace st @ [EvValidateCid (Cid b) None, EvHas (Cid b) False None, EvPut b None]
                 @ (case exchange s of None \<Rightarrow> []
                    | Some ex \<Rightarrow> [EvNotifyNewBlocks [b] (fst (ex_NotifyNewBlocks ex [b] w2))])
                 @ (case provider s of None \<Rightarrow> []
                    | Some p \<Rightarrow> [EvProvide (Cid b)
                        (fst (p_Provide p (Cid b)
                           (case exchange s of None \<Rightarrow> w2
                            | Some ex \<Rightarrow> snd (ex_NotifyNewBlocks ex [b] w2))))])\<rparr>)"
  using assms by (auto simp add: AddBlock_def call_defs split: option.splits prod.splits)

text \<open>
  C6, as the code has it. With the check before the write switched on and an identifier
  that the validator accepts: when \<^verbatim>\<open>Has\<close> answers that the block is present, \<^verbatim>\<open>AddBlock\<close> returns nil
  after the validation and that one \<^verbatim>\<open>Has\<close>, with no \<^verbatim>\<open>Put\<close>, notification or
  advertisement. Hence, when the first of two calls with the same block finds it absent
  and writes it, and the store then reports it present, both calls return nil and
  together they make exactly one \<^verbatim>\<open>Put\<close>, one notification if an exchange is configured
  and one advertisement if a provider is configured.
\<close>

theorem AddBlock_twice_writes_once:
  assumes valid: "ValidateCid (allowlist s) (Cid b) = None" and chk: "checkFirst s"
  shows "(bs_Has (blockstore s) (Cid b) (world st) = ((True, None), w1) \<longrightarrow>
            AddBlock ValidateCid s b st =
              (None, st\<lparr>world := w1,
                 trace := trace st @ [EvValidateCid (Cid b) None, EvHas (Cid b) True None]\<rparr>))
       \<and> (bs_Has (blockstore s) (Cid b) (world st) = ((False, None), w1)
          \<and> bs_Put (blockstore s) b w1 = (None, w2)
          \<and> fst (bs_Has (blockstore s) (Cid b) (world (snd (AddBlock ValidateCid s b st)))) = (True, None)
          \<longrightarrow> fst (AddBlock ValidateCid s b st) = None
            \<and> fst (AddBlock ValidateCid s b (snd (AddBlock ValidateCid s b st))) = None
            \<and> puts (trace (snd (AddBlock ValidateCid s b (snd (AddBlock ValidateCid s b st)))))
                = puts (trace st) @ [b]
            \<and> notifies (trace (snd (AddBlock ValidateCid s b (snd (AddBlock ValidateCid s b st)))))
                = notifies (trace st) @ (case exchange s of None \<Rightarrow> [] | Some ex \<Rightarrow> [[b]])
            \<and> provides (trace (snd (AddBlock ValidateCid s b (snd (AddBlock ValidateCid s b st)))))
                = provides (trace st) @ (case provider s of None \<Rightarrow> [] | Some p \<Rightarrow> [Cid b]))"
proof (intro conjI impI)
  assume "bs_Has (blockstore s) (Cid b) (world st) = ((True, None), w1)"
  then show "AddBlock ValidateCid s b st =
      (None, st\<lparr>world := w1,
         trace := trace st @ [EvValidateCid (Cid b) None, EvHas (Cid b) True None]\<rparr>)"
    by (rule AddBlock_present [where ValidateCid = ValidateCid, OF valid chk])
next
  assume h: "bs_Has (blockstore s) (Cid b) (world st) = ((False, None), w1)
          \<and> bs_Put (blockstore s) b w1 = (None, w2)
          \<and> fst (bs_Has (blockstore s) (Cid b) (world (snd (AddBlock ValidateCid s b st)))) = (True, None)"
  let ?st1 = "snd (AddBlock ValidateCid s b st)"
  from h AddBlock_absent [where ValidateCid = ValidateCid, OF valid chk, of st w1 w2] obtain w3 where
    first: "AddBlock ValidateCid s b st =
     (None, st\<lparr>world := w3,
               trace := trace st @ [EvValidateCid (Cid b) None, EvHas (Cid b) False None, EvPut b None]
                 @ (case exchange s of None \<Rightarrow> []
                    | Some ex \<Rightarrow> [EvNotifyNewBlocks [b] (fst (ex_NotifyNewBlocks ex [b] w2))])
                 @ (case provider s of None \<Rightarrow> []
                    | Some p \<Rightarrow> [EvProvide (Cid b)
                        (fst (p_Provide p (Cid b)
                           (case exchange s of None \<Rightarrow> w2
                            | Some ex \<Rightarrow> snd (ex_NotifyNewBlocks ex [b] w2))))])\<rparr>)"
    by blast
  from h obtain w' where has2: "bs_Has (blockstore s) (Cid b) (world ?st1) = ((True, None), w')"
    by (metis prod.collapse)
  have second: "AddBlock ValidateCid s b ?st1 =
     (None, ?st1\<lparr>world := w',
               trace := trace ?st1 @ [EvValidateCid (Cid b) None, EvHas (Cid b) True None]\<rparr>)"
    by (rule AddBlock_present [where ValidateCid = ValidateCid, OF valid chk has2])
  show "fst (AddBlock ValidateCid s b st) = None" by (simp add: first)
  show "fst (AddBlock ValidateCid s b ?st1) = None" by (simp add: second)
  show "puts (trace (snd (AddBlock ValidateCid s b ?st1))) = puts (trace st) @ [b]"
    unfolding second unfolding first
    by (simp add: puts_append split: option.splits)
  show "notifies (trace (snd (AddBlock ValidateCid s b ?st1)))
      = notifies (trace st) @ (case exchange s of None \<Rightarrow> [] | Some ex \<Rightarrow> [[b]])"
    unfolding second unfolding first
    by (simp add: notifies_append split: option.splits)
  show "provides (trace (snd (AddBlock ValidateCid s b ?st1)))
      = provides (trace st) @ (case provider s of None \<Rightarrow> [] | Some p \<Rightarrow> [Cid b])"
    unfolding second unfolding first
    by (simp add: provides_append split: option.splits)
qed


theorem AddBlock_twice_writes_once_witness:
  "AddBlock testValidateCid memService blkA (start (memWorld [blkA] [])) =
     (None, \<lparr>world = memWorld [blkA] [],
             trace = [EvValidateCid (Cid blkA) None, EvHas (Cid blkA) True None]\<rparr>)
   \<and> puts (trace (snd (AddBlock testValidateCid memService blkA
         (snd (AddBlock testValidateCid memService blkA (start (memWorld [] []))))))) = [blkA]
   \<and> notifies (trace (snd (AddBlock testValidateCid memService blkA
         (snd (AddBlock testValidateCid memService blkA (start (memWorld [] []))))))) = [[blkA]]
   \<and> provides (trace (snd (AddBlock testValidateCid memService blkA
         (snd (AddBlock testValidateCid memService blkA (start (memWorld [] []))))))) = [Cid blkA]"
proof -
  have valid: "testValidateCid (allowlist memService) (Cid blkA) = None"
    by (simp add: mem_defs)
  have chk: "checkFirst memService"
    by (simp add: memService_def)
  have present: "bs_Has (blockstore memService) (Cid blkA) (world (start (memWorld [blkA] []))) =
      ((True, None), memWorld [blkA] [])"
    by (simp add: mem_defs)
  have absent: "bs_Has (blockstore memService) (Cid blkA) (world (start (memWorld [] []))) =
      ((False, None), memWorld [] [])"
    by (simp add: mem_defs)
  have written: "bs_Put (blockstore memService) blkA (memWorld [] []) = (None, memWorld [blkA] [])"
    by (simp add: mem_defs)
  have coherent: "fst (bs_Has (blockstore memService) (Cid blkA)
      (world (snd (AddBlock testValidateCid memService blkA (start (memWorld [] [])))))) = (True, None)"
    by (simp add: AddBlock_def call_defs mem_defs)
  from AddBlock_twice_writes_once
      [where ValidateCid = testValidateCid and s = memService and b = blkA
         and st = "start (memWorld [blkA] [])" and ?w1.0 = "memWorld [blkA] []", OF valid chk]
    present
  have one: "AddBlock testValidateCid memService blkA (start (memWorld [blkA] [])) =
     (None, \<lparr>world = memWorld [blkA] [],
             trace = [EvValidateCid (Cid blkA) None, EvHas (Cid blkA) True None]\<rparr>)"
    by (simp add: start_def)
  from AddBlock_twice_writes_once
      [where ValidateCid = testValidateCid and s = memService and b = blkA
         and st = "start (memWorld [] [])" and ?w1.0 = "memWorld [] []"
         and ?w2.0 = "memWorld [blkA] []", OF valid chk]
    absent written coherent
  have two: "puts (trace (snd (AddBlock testValidateCid memService blkA
         (snd (AddBlock testValidateCid memService blkA (start (memWorld [] []))))))) =
       puts (trace (start (memWorld [] []))) @ [blkA]
    \<and> notifies (trace (snd (AddBlock testValidateCid memService blkA
         (snd (AddBlock testValidateCid memService blkA (start (memWorld [] []))))))) =
       notifies (trace (start (memWorld [] []))) @
         (case exchange memService of None \<Rightarrow> [] | Some ex \<Rightarrow> [[blkA]])
    \<and> provides (trace (snd (AddBlock testValidateCid memService blkA
         (snd (AddBlock testValidateCid memService blkA (start (memWorld [] []))))))) =
       provides (trace (start (memWorld [] []))) @
         (case provider memService of None \<Rightarrow> [] | Some p \<Rightarrow> [Cid blkA])"
    by blast
  from one two show ?thesis
    by (simp add: start_def memService_def)
qed

text \<open>
  Without these conditions the specification's sentences fail. A block that the store
  holds but the validator rejects is not answered with success: \<^verbatim>\<open>AddBlock\<close> returns the
  validator's error before it asks the store. And when the write of an absent block
  fails, the first call returns the store's error and the second call writes again: two
  calls to \<^verbatim>\<open>Put\<close>.
\<close>

theorem AddBlock_rejected_or_failed_write_counterexample:
  "checkFirst memService
   \<and> fst (bs_Has (blockstore memService) (Cid blkBad) (memWorld [blkBad] [])) = (True, None)
   \<and> AddBlock testValidateCid memService blkBad (start (memWorld [blkBad] [])) =
       (Some (ErrOther ''insecure hash''),
        \<lparr>world = memWorld [blkBad] [],
         trace = [EvValidateCid (Cid blkBad) (Some (ErrOther ''insecure hash''))]\<rparr>)
   \<and> fst (bs_Has (blockstore memService) (Cid blkA) ((memWorld [] [])\<lparr>putFails := True\<rparr>)) =
       (False, None)
   \<and> fst (AddBlock testValidateCid memService blkA
         (start ((memWorld [] [])\<lparr>putFails := True\<rparr>))) = Some (ErrOther ''put'')
   \<and> puts (trace (snd (AddBlock testValidateCid memService blkA
         (snd (AddBlock testValidateCid memService blkA
            (start ((memWorld [] [])\<lparr>putFails := True\<rparr>))))))) = [blkA, blkA]"
  by (simp add: AddBlock_def call_defs mem_defs)

subsection \<open>Reading one block\<close>

text \<open>
  C8. For a valid identifier whose local \<^verbatim>\<open>Get\<close> fails with a not-found error \<open>err\<close>:
  when the fetch factory returns no fetcher, \<^verbatim>\<open>getBlock\<close> returns that same \<open>err\<close>, in the
  state the factory left; and \<^verbatim>\<open>GetBlock\<close> of a service with no exchange returns \<open>err\<close>
  after the validation and the one \<^verbatim>\<open>Get\<close>, with no other call.
\<close>

theorem getBlock_offline_not_found:
  assumes "ValidateCid (allowlist bs) c = None"
    and "bs_Get (blockstore bs) c (world st) = (Inl err, w1)"
    and "IsNotFound err"
  shows "(fetchFactory (st\<lparr>world := w1, trace := trace st @ [EvValidateCid c None, EvGet c (Inl err)]\<rparr>)
            = (None, st')
          \<longrightarrow> getBlock ValidateCid c bs fetchFactory st = (Inl err, st'))
       \<and> (exchange bs = None
          \<longrightarrow> GetBlock ValidateCid bs c st =
              (Inl err, st\<lparr>world := w1, trace := trace st @ [EvValidateCid c None, EvGet c (Inl err)]\<rparr>))"
  using assms
  by (simp add: getBlock_def GetBlock_def getExchangeFetcher_def grabAllowlistFromBlockservice_def
      callValidateCid_def callGet_def logEv_def Let_def)


theorem getBlock_offline_not_found_witness:
  "GetBlock testValidateCid memOffline (Cid blkA) (start (memWorld [] [blkA])) =
     (Inl (ErrNotFound (Cid blkA)),
      \<lparr>world = memWorld [] [blkA],
       trace = [EvValidateCid (Cid blkA) None, EvGet (Cid blkA) (Inl (ErrNotFound (Cid blkA)))]\<rparr>)"
proof -
  have valid: "testValidateCid (allowlist memOffline) (Cid blkA) = None"
    by (simp add: mem_defs memOffline_def)
  have miss: "bs_Get (blockstore memOffline) (Cid blkA) (world (start (memWorld [] [blkA]))) =
      (Inl (ErrNotFound (Cid blkA)), memWorld [] [blkA])"
    by (simp add: mem_defs memOffline_def)
  have nf: "IsNotFound (ErrNotFound (Cid blkA))" by simp
  have off: "exchange memOffline = None" by (simp add: memOffline_def)
  from getBlock_offline_not_found
      [where ValidateCid = testValidateCid and bs = memOffline and c = "Cid blkA"
         and st = "start (memWorld [] [blkA])" and err = "ErrNotFound (Cid blkA)"
         and ?w1.0 = "memWorld [] [blkA]", OF valid miss nf] off
  show ?thesis
    by (simp add: start_def)
qed

text \<open>
  C5, as the code has it. For a valid identifier whose local \<^verbatim>\<open>Get\<close> reports not-found
  and whose fetch returns the block \<open>blk\<close>: when the write of \<open>blk\<close> succeeds, the
  notification succeeds if an exchange is configured and the advertisement succeeds if a
  provider is configured, \<^verbatim>\<open>getBlock\<close> returns exactly \<open>blk\<close>, and after the fetch it has made
  one \<^verbatim>\<open>Put\<close> of \<open>blk\<close>, then one notification of \<open>[blk]\<close> if there is an exchange (none
  otherwise), then one advertisement of \<open>blk\<close>'s identifier if there is a provider (none
  otherwise), and nothing else.
\<close>

theorem getBlock_fetched_write_notify_provide:
  assumes valid: "ValidateCid (allowlist bs) c = None"
    and miss: "bs_Get (blockstore bs) c (world st) = (Inl err, w1)" "IsNotFound err"
    and factory: "fetchFactory
        (st\<lparr>world := w1, trace := trace st @ [EvValidateCid c None, EvGet c (Inl err)]\<rparr>) =
        (Some fetch, st2)"
    and fetched: "f_GetBlock fetch c (world st2) = (Inr blk, w3)"
    and written: "bs_Put (blockstore bs) blk w3 = (None, w4)"
    and notified: "case exchange bs of None \<Rightarrow> w5 = w4
                   | Some ex \<Rightarrow> ex_NotifyNewBlocks ex [blk] w4 = (None, w5)"
    and provided: "case provider bs of None \<Rightarrow> w6 = w5
                   | Some p \<Rightarrow> p_Provide p (Cid blk) w5 = (None, w6)"
  shows "getBlock ValidateCid c bs fetchFactory st =
     (Inr blk,
      st2\<lparr>world := w6,
          trace := trace st2 @ [EvFetchGetBlock c (Inr blk), EvPut blk None]
            @ (case exchange bs of None \<Rightarrow> [] | Some ex \<Rightarrow> [EvNotifyNewBlocks [blk] None])
            @ (case provider bs of None \<Rightarrow> [] | Some p \<Rightarrow> [EvProvide (Cid blk) None])\<rparr>)"
  using assms
  by (simp add: getBlock_def grabAllowlistFromBlockservice_def grabProviderFromBlockservice_def
      call_defs split: option.splits)

theorem getBlock_fetched_write_notify_provide_witness:
  "GetBlock testValidateCid memService (Cid blkB) (start (memWorld [blkA] [blkB])) =
     (Inr blkB,
      \<lparr>world = memWorld [blkA, blkB] [blkB],
       trace = [EvValidateCid (Cid blkB) None, EvGet (Cid blkB) (Inl (ErrNotFound (Cid blkB))),
                EvFetchGetBlock (Cid blkB) (Inr blkB), EvPut blkB None,
                EvNotifyNewBlocks [blkB] None, EvProvide (Cid blkB) None]\<rparr>)"
proof -
  have valid: "testValidateCid (allowlist memService) (Cid blkB) = None"
    by (simp add: mem_defs)
  have miss: "bs_Get (blockstore memService) (Cid blkB) (world (start (memWorld [blkA] [blkB]))) =
      (Inl (ErrNotFound (Cid blkB)), memWorld [blkA] [blkB])"
    by (simp add: mem_defs)
  have nf: "IsNotFound (ErrNotFound (Cid blkB))" by simp
  have factory: "getExchangeFetcher memService
      ((start (memWorld [blkA] [blkB]))\<lparr>world := memWorld [blkA] [blkB],
         trace := trace (start (memWorld [blkA] [blkB])) @
           [EvValidateCid (Cid blkB) None, EvGet (Cid blkB) (Inl (ErrNotFound (Cid blkB)))]\<rparr>) =
      (Some memFetcher,
       \<lparr>world = memWorld [blkA] [blkB],
        trace = [EvValidateCid (Cid blkB) None, EvGet (Cid blkB) (Inl (ErrNotFound (Cid blkB)))]\<rparr>)"
    by (simp add: getExchangeFetcher_def memService_def memExchange_def start_def)
  have fetched: "f_GetBlock memFetcher (Cid blkB)
      (world \<lparr>world = memWorld [blkA] [blkB],
        trace = [EvValidateCid (Cid blkB) None, EvGet (Cid blkB) (Inl (ErrNotFound (Cid blkB)))]\<rparr>) =
      (Inr blkB, memWorld [blkA] [blkB])"
    by (simp add: mem_defs)
  have written: "bs_Put (blockstore memService) blkB (memWorld [blkA] [blkB]) =
      (None, memWorld [blkA, blkB] [blkB])"
    by (simp add: mem_defs)
  have notified: "case exchange memService of None \<Rightarrow> memWorld [blkA, blkB] [blkB] = memWorld [blkA, blkB] [blkB]
      | Some ex \<Rightarrow> ex_NotifyNewBlocks ex [blkB] (memWorld [blkA, blkB] [blkB]) =
          (None, memWorld [blkA, blkB] [blkB])"
    by (simp add: mem_defs)
  have provided: "case provider memService of None \<Rightarrow> memWorld [blkA, blkB] [blkB] = memWorld [blkA, blkB] [blkB]
      | Some p \<Rightarrow> p_Provide p (Cid blkB) (memWorld [blkA, blkB] [blkB]) =
          (None, memWorld [blkA, blkB] [blkB])"
    by (simp add: mem_defs)
  from getBlock_fetched_write_notify_provide
      [where ValidateCid = testValidateCid and bs = memService and c = "Cid blkB"
         and st = "start (memWorld [blkA] [blkB])" and err = "ErrNotFound (Cid blkB)"
         and ?w1.0 = "memWorld [blkA] [blkB]" and fetchFactory = "getExchangeFetcher memService"
         and fetch = memFetcher and blk = blkB and ?w3.0 = "memWorld [blkA] [blkB]"
         and ?w4.0 = "memWorld [blkA, blkB] [blkB]" and ?w5.0 = "memWorld [blkA, blkB] [blkB]"
         and ?w6.0 = "memWorld [blkA, blkB] [blkB]",
       OF valid miss nf factory fetched written notified provided]
  show ?thesis
    by (simp add: GetBlock_def memService_def)
qed

text \<open>
  The specification's sentence promises one write, one notification and one
  advertisement for every such read, and the fetched block as the result. A service
  built without a provider (the default of \<^verbatim>\<open>New\<close>) fetches, writes and notifies, returns
  the block, and advertises nothing; and when the write of the fetched block fails, the
  error is returned in place of the block, with no notification and no advertisement.
\<close>

theorem getBlock_fetched_without_provider_counterexample:
  "GetBlock testValidateCid memNoProvider (Cid blkB) (start (memWorld [] [blkB])) =
     (Inr blkB,
      \<lparr>world = memWorld [blkB] [blkB],
       trace = [EvValidateCid (Cid blkB) None, EvGet (Cid blkB) (Inl (ErrNotFound (Cid blkB))),
                EvFetchGetBlock (Cid blkB) (Inr blkB), EvPut blkB None,
                EvNotifyNewBlocks [blkB] None]\<rparr>)
   \<and> length (provides (trace (snd
         (GetBlock testValidateCid memNoProvider (Cid blkB) (start (memWorld [] [blkB])))))) \<noteq> 1
   \<and> GetBlock testValidateCid memService (Cid blkB)
         (start ((memWorld [] [blkB])\<lparr>putFails := True\<rparr>)) =
     (Inl (ErrOther ''put''),
      \<lparr>world = (memWorld [] [blkB])\<lparr>putFails := True\<rparr>,
       trace = [EvValidateCid (Cid blkB) None, EvGet (Cid blkB) (Inl (ErrNotFound (Cid blkB))),
                EvFetchGetBlock (Cid blkB) (Inr blkB), EvPut blkB (Some (ErrOther ''put''))]\<rparr>)"
  by (simp add: GetBlock_def getBlock_def getExchangeFetcher_def memNoProvider_def
      grabAllowlistFromBlockservice_def grabProviderFromBlockservice_def call_defs mem_defs)

subsection \<open>\<^verbatim>\<open>getBlocks\<close>: validation\<close>

lemma callValidateCid_eq:
  "callValidateCid ValidateCid al c st =
     (ValidateCid al c, st\<lparr>trace := trace st @ [EvValidateCid c (ValidateCid al c)]\<rparr>)"
  by (simp add: callValidateCid_def logEv_def Let_def)

lemma secondPass_eq:
  "secondPass ValidateCid al ks ks2 st =
     (ks2 @ filter (\<lambda>c. ValidateCid al c = None) ks,
      st\<lparr>trace := trace st @ map (\<lambda>c. EvValidateCid c (ValidateCid al c)) ks\<rparr>)"
  by (induction ks arbitrary: ks2 st) (auto simp add: callValidateCid_eq split: option.splits)

lemma firstScan_valid:
  assumes "\<forall>c\<in>set ks. ValidateCid al c = None"
  shows "firstScan ValidateCid al ks i l st =
     (if ks = [] then l else i + length ks - 1,
      st\<lparr>trace := trace st @ map (\<lambda>c. EvValidateCid c None) ks\<rparr>)"
  using assms
  by (induction ks arbitrary: i l st) (auto simp add: callValidateCid_eq)

lemma firstScan_invalid:
  assumes "\<forall>c\<in>set pre. ValidateCid al c = None" and "ValidateCid al c = Some err"
  shows "firstScan ValidateCid al (pre @ c # post) i l st =
     (i + length pre,
      st\<lparr>trace := trace st @ map (\<lambda>c. EvValidateCid c None) pre @ [EvValidateCid c (Some err)]\<rparr>)"
  using assms
  by (induction pre arbitrary: i l st) (auto simp add: callValidateCid_eq)

lemma validations_map_ev [simp]:
  "validations (map (\<lambda>c. EvValidateCid c (f c)) ks) = ks"
  by (induction ks) simp_all

lemma drop_to_last: "ks \<noteq> [] \<Longrightarrow> drop (length ks - Suc 0) ks = [last ks]"
  by (cases ks rule: rev_cases) simp_all

lemma take_to_last: "ks \<noteq> [] \<Longrightarrow> take (length ks - Suc 0) ks @ [last ks] = ks"
  by (cases ks rule: rev_cases) simp_all

lemma validatePhase_filter:
  "fst (validatePhase ValidateCid al ks st) = filter (\<lambda>c. ValidateCid al c = None) ks"
proof (cases "\<forall>c\<in>set ks. ValidateCid al c = None")
  case True
  then have f: "filter (\<lambda>c. ValidateCid al c = None) ks = ks" by simp
  show ?thesis
  proof (cases "ks = []")
    case True
    then show ?thesis by (simp add: validatePhase_def)
  next
    case False
    from True have "ValidateCid al (last ks) = None"
      using False by simp
    with False True show ?thesis
      by (simp add: validatePhase_def firstScan_valid secondPass_eq f drop_to_last take_to_last)
  qed
next
  case False
  then have "\<exists>c\<in>set ks. ValidateCid al c \<noteq> None" by blast
  from split_list_first_prop [OF this] obtain pre c post where ks: "ks = pre @ c # post"
    and pre: "\<forall>c\<in>set pre. ValidateCid al c = None" and c: "ValidateCid al c \<noteq> None"
    by auto
  from c obtain err where err: "ValidateCid al c = Some err" by auto
  show ?thesis
    using pre err by (simp add: ks validatePhase_def firstScan_invalid secondPass_eq)
qed

text \<open>
  C2, what the code does. The first loop leaves \<open>lastAllValidIndex\<close> at the index of the
  last element when it meets no invalid identifier, never at \<open>len(ks)\<close>; so the test
  \<^verbatim>\<open>lastAllValidIndex != len(ks)\<close> holds for every non-empty input. When every
  identifier of a non-empty input is valid, the second loop still runs, over the last
  identifier, which is validated a second time. When the first invalid identifier \<open>c\<close>
  stands after the valid prefix \<open>pre\<close>, the first loop validates \<open>pre\<close> and \<open>c\<close>, and
  the second loop validates \<open>c\<close> again and then the rest, and nothing of \<open>pre\<close>.
\<close>

theorem validatePhase_second_pass:
  "((\<forall>c\<in>set ks. ValidateCid al c = None) \<and> ks \<noteq> [] \<longrightarrow>
      validations (trace (snd (validatePhase ValidateCid al ks st))) =
        validations (trace st) @ ks @ [last ks])
   \<and> ((\<forall>c\<in>set pre. ValidateCid al c = None) \<and> ValidateCid al c \<noteq> None \<longrightarrow>
      validations (trace (snd (validatePhase ValidateCid al (pre @ c # post) st))) =
        validations (trace st) @ (pre @ [c]) @ (c # post))"
proof (intro conjI impI)
  assume a: "(\<forall>c\<in>set ks. ValidateCid al c = None) \<and> ks \<noteq> []"
  then have ne: "ks \<noteq> []" and v: "\<forall>c\<in>set ks. ValidateCid al c = None" by simp_all
  from ne have "length ks - Suc 0 \<noteq> length ks" by (cases ks) simp_all
  with ne v show "validations (trace (snd (validatePhase ValidateCid al ks st))) =
        validations (trace st) @ ks @ [last ks]"
    by (simp add: validatePhase_def firstScan_valid secondPass_eq validations_append drop_to_last)
next
  assume a: "(\<forall>c\<in>set pre. ValidateCid al c = None) \<and> ValidateCid al c \<noteq> None"
  then obtain err where err: "ValidateCid al c = Some err" by auto
  with a show "validations (trace (snd (validatePhase ValidateCid al (pre @ c # post) st))) =
        validations (trace st) @ (pre @ [c]) @ (c # post)"
    by (simp add: validatePhase_def firstScan_invalid secondPass_eq validations_append)
qed

theorem validatePhase_second_pass_witness:
  "validations (trace (snd (validatePhase testValidateCid testAllowlist [Cid blkA]
       (start (memWorld [blkA] []))))) = [Cid blkA, Cid blkA]
   \<and> validations (trace (snd (validatePhase testValidateCid testAllowlist
       ([Cid blkA] @ Cid blkBad # [Cid blkC]) (start (memWorld [blkA] []))))) =
       [Cid blkA, Cid blkBad, Cid blkBad, Cid blkC]"
  using validatePhase_second_pass
    [where ValidateCid = testValidateCid and al = testAllowlist and ks = "[Cid blkA]"
       and pre = "[Cid blkA]" and c = "Cid blkBad" and post = "[Cid blkC]"
       and st = "start (memWorld [blkA] [])"]
  by (simp add: mem_defs)

subsection \<open>\<^verbatim>\<open>getBlocks\<close>: the local phase\<close>

lemma callGet_eq:
  "callGet bs c st =
     (fst (bs_Get bs c (world st)),
      st\<lparr>world := snd (bs_Get bs c (world st)),
         trace := trace st @ [EvGet c (fst (bs_Get bs c (world st)))]\<rparr>)"
  by (simp add: callGet_def logEv_def Let_def split: prod.splits)

lemma selectSend_eq:
  "selectSend ctx b st =
     (if fst (ctx_Done ctx (world st)) then (False, st\<lparr>world := snd (ctx_Done ctx (world st))\<rparr>)
      else (True, st\<lparr>world := snd (ctx_Done ctx (world st)), trace := trace st @ [EvSend b]\<rparr>))"
  by (simp add: selectSend_def logEv_def Let_def split: prod.splits)

lemma localPhase_transcript:
  "localPhase ctx bs ks ms0 st = ((fin, ms), st') \<Longrightarrow>
   \<exists>ext pending. trace st' = trace st @ ext \<and> ms = ms0 @ failedGets ext
     \<and> prefix (gets ext) ks \<and> hits ext = sends ext @ pending
     \<and> (fin \<longrightarrow> gets ext = ks \<and> pending = [])"
proof (induction ks arbitrary: ms0 st)
  case Nil
  then show ?case by simp
next
  case (Cons c ks)
  let ?r = "fst (bs_Get bs c (world st))"
  let ?st1 = "st\<lparr>world := snd (bs_Get bs c (world st)), trace := trace st @ [EvGet c ?r]\<rparr>"
  show ?case
  proof (cases ?r)
    case (Inl err)
    with Cons.prems have "localPhase ctx bs ks (ms0 @ [c]) ?st1 = ((fin, ms), st')"
      by (simp add: callGet_eq)
    from Cons.IH [OF this] obtain ext pending where
      "trace st' = trace ?st1 @ ext" "ms = (ms0 @ [c]) @ failedGets ext"
      "prefix (gets ext) ks" "hits ext = sends ext @ pending"
      "fin \<longrightarrow> gets ext = ks \<and> pending = []"
      by blast
    with Inl have "trace st' = trace st @ (EvGet c (Inl err) # ext)
      \<and> ms = ms0 @ failedGets (EvGet c (Inl err) # ext)
      \<and> prefix (gets (EvGet c (Inl err) # ext)) (c # ks)
      \<and> hits (EvGet c (Inl err) # ext) = sends (EvGet c (Inl err) # ext) @ pending
      \<and> (fin \<longrightarrow> gets (EvGet c (Inl err) # ext) = c # ks \<and> pending = [])"
      by simp
    then show ?thesis by blast
  next
    case (Inr hit)
    show ?thesis
    proof (cases "fst (ctx_Done ctx (world ?st1))")
      case True
      with Inr Cons.prems have
        "fin = False" "ms = ms0" "trace st' = trace st @ [EvGet c (Inr hit)]"
        by (auto simp add: callGet_eq selectSend_eq)
      then have "trace st' = trace st @ [EvGet c (Inr hit)]
        \<and> ms = ms0 @ failedGets [EvGet c (Inr hit)]
        \<and> prefix (gets [EvGet c (Inr hit)]) (c # ks)
        \<and> hits [EvGet c (Inr hit)] = sends [EvGet c (Inr hit)] @ [hit]
        \<and> (fin \<longrightarrow> gets [EvGet c (Inr hit)] = c # ks \<and> [hit] = [])"
        by simp
      then show ?thesis by blast
    next
      case False
      let ?st2 = "?st1\<lparr>world := snd (ctx_Done ctx (world ?st1)),
                       trace := trace ?st1 @ [EvSend hit]\<rparr>"
      from False Inr Cons.prems have "localPhase ctx bs ks ms0 ?st2 = ((fin, ms), st')"
        by (simp add: callGet_eq selectSend_eq)
      from Cons.IH [OF this] obtain ext pending where
        "trace st' = trace ?st2 @ ext" "ms = ms0 @ failedGets ext"
        "prefix (gets ext) ks" "hits ext = sends ext @ pending"
        "fin \<longrightarrow> gets ext = ks \<and> pending = []"
        by blast
      with Inr have "trace st' = trace st @ (EvGet c (Inr hit) # EvSend hit # ext)
        \<and> ms = ms0 @ failedGets (EvGet c (Inr hit) # EvSend hit # ext)
        \<and> prefix (gets (EvGet c (Inr hit) # EvSend hit # ext)) (c # ks)
        \<and> hits (EvGet c (Inr hit) # EvSend hit # ext)
            = sends (EvGet c (Inr hit) # EvSend hit # ext) @ pending
        \<and> (fin \<longrightarrow> gets (EvGet c (Inr hit) # EvSend hit # ext) = c # ks \<and> pending = [])"
        by simp
      then show ?thesis by blast
    qed
  qed
qed

lemma newEvents_append: "trace st' = trace st @ ext \<Longrightarrow> newEvents st st' = ext"
  by (simp add: newEvents_def)

lemma hits_localHits: "hits tr = map snd (localHits tr)"
  by (induction tr rule: localHits.induct) simp_all

lemma localHits_subseq_gets: "subseq (map fst (localHits tr)) (gets tr)"
  by (induction tr rule: localHits.induct) (simp_all add: list_emb_Cons)

lemma localPhase_never_done:
  "\<forall>w. \<not> fst (ctx_Done ctx w) \<Longrightarrow> fst (fst (localPhase ctx bs ks ms st))"
  by (induction ks arbitrary: ms st) (simp_all add: callGet_eq selectSend_eq split: sum.splits)

text \<open>
  C10. \<^verbatim>\<open>getBlocks\<close> runs its local phase on exactly the accepted identifiers of the
  input, in the order of the input, from the state the validation left; when the
  context is done during that phase it returns in the state the phase left, and
  otherwise it goes on from that state with the fetch factory. The local phase calls
  \<^verbatim>\<open>Get\<close> on those identifiers in that order and sends the blocks its \<^verbatim>\<open>Get\<close> calls
  returned in the order of those calls, so the identifiers whose blocks are sent form a
  subsequence of the input. When the phase runs to its end it has called \<^verbatim>\<open>Get\<close> on every
  accepted identifier and sent every hit; and it does run to its end when the context
  is never done.
\<close>

theorem getBlocks_local_phase_order:
  "(let ks' = filter (\<lambda>c. ValidateCid (allowlist bsvc) c = None) ks;
        st1 = snd (validatePhase ValidateCid (allowlist bsvc) ks st);
        ((fin, misses), st2) = localPhase ctx (blockstore bsvc) ks' [] st1;
        ext = newEvents st1 st2
    in fst (validatePhase ValidateCid (allowlist bsvc) ks st) = ks'
     \<and> getBlocks ValidateCid ctx ks bsvc fetchFactory st =
         (if fin
          then (case fetchFactory st2 of
                  (fetch, st3) \<Rightarrow>
                    (case (if misses = [] then None else fetch) of
                       None \<Rightarrow> Some st3
                     | Some f \<Rightarrow>
                         (case callFetchGetBlocks f misses st3 of
                            (Inl err, st4) \<Rightarrow> Some st4
                          | (Inr rblocks, st4) \<Rightarrow>
                              netLoop ctx (blockstore bsvc) (exchange bsvc) (provider bsvc)
                                rblocks st4)))
          else Some st2)
     \<and> trace st2 = trace st1 @ ext
     \<and> prefix (gets ext) ks'
     \<and> prefix (sends ext) (map snd (localHits ext))
     \<and> subseq (map fst (localHits ext)) ks
     \<and> (fin \<longrightarrow> gets ext = ks' \<and> sends ext = map snd (localHits ext))
     \<and> ((\<forall>w. \<not> fst (ctx_Done ctx w)) \<longrightarrow> fin))"
proof -
  let ?ks' = "filter (\<lambda>c. ValidateCid (allowlist bsvc) c = None) ks"
  obtain ks1 st1 where vp: "validatePhase ValidateCid (allowlist bsvc) ks st = (ks1, st1)"
    by (cases "validatePhase ValidateCid (allowlist bsvc) ks st") auto
  from validatePhase_filter [of ValidateCid "allowlist bsvc" ks st] vp
  have k: "ks1 = ?ks'" by simp
  obtain fin misses st2 where l:
    "localPhase ctx (blockstore bsvc) ?ks' [] st1 = ((fin, misses), st2)"
    by (cases "localPhase ctx (blockstore bsvc) ?ks' [] st1") auto
  from localPhase_transcript [OF l] obtain ext pending where
    e: "trace st2 = trace st1 @ ext" "prefix (gets ext) ?ks'" "hits ext = sends ext @ pending"
      "fin \<longrightarrow> gets ext = ?ks' \<and> pending = []"
    by blast
  from e(1) have n: "newEvents st1 st2 = ext" by (rule newEvents_append)
  have g: "getBlocks ValidateCid ctx ks bsvc fetchFactory st =
         (if fin
          then (case fetchFactory st2 of
                  (fetch, st3) \<Rightarrow>
                    (case (if misses = [] then None else fetch) of
                       None \<Rightarrow> Some st3
                     | Some f \<Rightarrow>
                         (case callFetchGetBlocks f misses st3 of
                            (Inl err, st4) \<Rightarrow> Some st4
                          | (Inr rblocks, st4) \<Rightarrow>
                              netLoop ctx (blockstore bsvc) (exchange bsvc) (provider bsvc)
                                rblocks st4)))
          else Some st2)"
    unfolding getBlocks_def grabAllowlistFromBlockservice_def grabProviderFromBlockservice_def
    using l by (simp add: vp k)
  have p: "prefix (sends ext) (map snd (localHits ext))"
    using e(3) by (simp add: hits_localHits [symmetric])
  have "subseq (map fst (localHits ext)) (gets ext)" by (rule localHits_subseq_gets)
  also have "subseq (gets ext) ?ks'" using e(2) by (rule prefix_imp_subseq)
  also have "subseq ?ks' ks" by simp
  finally have sub: "subseq (map fst (localHits ext)) ks" .
  have f: "fin \<longrightarrow> gets ext = ?ks' \<and> sends ext = map snd (localHits ext)"
    using e(3,4) by (simp add: hits_localHits [symmetric])
  have d: "(\<forall>w. \<not> fst (ctx_Done ctx w)) \<longrightarrow> fin"
    using localPhase_never_done [of ctx "blockstore bsvc" ?ks' "[]" st1] l by simp
  from g e(1,2) p sub f d show ?thesis
    by (simp add: Let_def vp k l n)
qed

theorem getBlocks_local_phase_order_witness:
  "(\<forall>w. \<not> fst (ctx_Done memContext w))
   \<and> gets (newEvents
       \<lparr>world = memWorld [blkC, blkA] [blkB],
        trace = [EvValidateCid (Cid blkA) None,
                 EvValidateCid (Cid blkBad) (Some (ErrOther ''insecure hash'')),
                 EvValidateCid (Cid blkBad) (Some (ErrOther ''insecure hash'')),
                 EvValidateCid (Cid blkC) None, EvValidateCid (Cid blkB) None]\<rparr>
       \<lparr>world = memWorld [blkC, blkA] [blkB],
        trace = [EvValidateCid (Cid blkA) None,
                 EvValidateCid (Cid blkBad) (Some (ErrOther ''insecure hash'')),
                 EvValidateCid (Cid blkBad) (Some (ErrOther ''insecure hash'')),
                 EvValidateCid (Cid blkC) None, EvValidateCid (Cid blkB) None,
                 EvGet (Cid blkA) (Inr blkA), EvSend blkA,
                 EvGet (Cid blkC) (Inr blkC), EvSend blkC,
                 EvGet (Cid blkB) (Inl (ErrNotFound (Cid blkB)))]\<rparr>)
     = [Cid blkA, Cid blkC, Cid blkB]
   \<and> sends (newEvents
       \<lparr>world = memWorld [blkC, blkA] [blkB],
        trace = [EvValidateCid (Cid blkA) None,
                 EvValidateCid (Cid blkBad) (Some (ErrOther ''insecure hash'')),
                 EvValidateCid (Cid blkBad) (Some (ErrOther ''insecure hash'')),
                 EvValidateCid (Cid blkC) None, EvValidateCid (Cid blkB) None]\<rparr>
       \<lparr>world = memWorld [blkC, blkA] [blkB],
        trace = [EvValidateCid (Cid blkA) None,
                 EvValidateCid (Cid blkBad) (Some (ErrOther ''insecure hash'')),
                 EvValidateCid (Cid blkBad) (Some (ErrOther ''insecure hash'')),
                 EvValidateCid (Cid blkC) None, EvValidateCid (Cid blkB) None,
                 EvGet (Cid blkA) (Inr blkA), EvSend blkA,
                 EvGet (Cid blkC) (Inr blkC), EvSend blkC,
                 EvGet (Cid blkB) (Inl (ErrNotFound (Cid blkB)))]\<rparr>)
     = [blkA, blkC]
   \<and> GetBlocks testValidateCid memService memContext
       [Cid blkA, Cid blkBad, Cid blkC, Cid blkB] (start (memWorld [blkC, blkA] [blkB])) =
     Some \<lparr>world = memWorld [blkC, blkA, blkB] [blkB],
        trace = [EvValidateCid (Cid blkA) None,
                 EvValidateCid (Cid blkBad) (Some (ErrOther ''insecure hash'')),
                 EvValidateCid (Cid blkBad) (Some (ErrOther ''insecure hash'')),
                 EvValidateCid (Cid blkC) None, EvValidateCid (Cid blkB) None,
                 EvGet (Cid blkA) (Inr blkA), EvSend blkA,
                 EvGet (Cid blkC) (Inr blkC), EvSend blkC,
                 EvGet (Cid blkB) (Inl (ErrNotFound (Cid blkB))),
                 EvFetchGetBlocks [Cid blkB] None, EvPut blkB None,
                 EvNotifyNewBlocks [blkB] None, EvProvide (Cid blkB) None, EvSend blkB]\<rparr>"
proof -
  let ?ks = "[Cid blkA, Cid blkBad, Cid blkC, Cid blkB]"
  let ?ks' = "[Cid blkA, Cid blkC, Cid blkB]"
  let ?st1 = "\<lparr>world = memWorld [blkC, blkA] [blkB],
        trace = [EvValidateCid (Cid blkA) None,
                 EvValidateCid (Cid blkBad) (Some (ErrOther ''insecure hash'')),
                 EvValidateCid (Cid blkBad) (Some (ErrOther ''insecure hash'')),
                 EvValidateCid (Cid blkC) None, EvValidateCid (Cid blkB) None]\<rparr>"
  let ?st2 = "\<lparr>world = memWorld [blkC, blkA] [blkB],
        trace = [EvValidateCid (Cid blkA) None,
                 EvValidateCid (Cid blkBad) (Some (ErrOther ''insecure hash'')),
                 EvValidateCid (Cid blkBad) (Some (ErrOther ''insecure hash'')),
                 EvValidateCid (Cid blkC) None, EvValidateCid (Cid blkB) None,
                 EvGet (Cid blkA) (Inr blkA), EvSend blkA,
                 EvGet (Cid blkC) (Inr blkC), EvSend blkC,
                 EvGet (Cid blkB) (Inl (ErrNotFound (Cid blkB)))]\<rparr>"
  have nd: "\<forall>w. \<not> fst (ctx_Done memContext w)"
    by (simp add: memContext_def)
  have f: "filter (\<lambda>c. testValidateCid (allowlist memService) c = None) ?ks = ?ks'"
    by (simp add: mem_defs)
  have v: "validatePhase testValidateCid (allowlist memService) ?ks
      (start (memWorld [blkC, blkA] [blkB])) = (?ks', ?st1)"
    by (simp add: validatePhase_def call_defs mem_defs)
  have l: "localPhase memContext (blockstore memService) ?ks' [] ?st1 = ((True, [Cid blkB]), ?st2)"
    by (simp add: call_defs mem_defs)
  have h: "map snd (localHits (newEvents ?st1 ?st2)) = [blkA, blkC]"
    by (simp add: newEvents_def mem_defs)
  note t = getBlocks_local_phase_order
    [where ValidateCid = testValidateCid and bsvc = memService and ks = ?ks
       and st = "start (memWorld [blkC, blkA] [blkB])" and ctx = memContext
       and fetchFactory = "getExchangeFetcher memService",
     unfolded Let_def f v snd_conv fst_conv l prod.case]
  from t have o: "gets (newEvents ?st1 ?st2) = ?ks'
      \<and> sends (newEvents ?st1 ?st2) = map snd (localHits (newEvents ?st1 ?st2))"
    by blast
  from t have g: "getBlocks testValidateCid memContext ?ks memService
      (getExchangeFetcher memService) (start (memWorld [blkC, blkA] [blkB])) =
      (if True
       then (case getExchangeFetcher memService ?st2 of
               (fetch, st3) \<Rightarrow>
                 (case (if [Cid blkB] = [] then None else fetch) of
                    None \<Rightarrow> Some st3
                  | Some f \<Rightarrow>
                      (case callFetchGetBlocks f [Cid blkB] st3 of
                         (Inl err, st4) \<Rightarrow> Some st4
                       | (Inr rblocks, st4) \<Rightarrow>
                           netLoop memContext (blockstore memService) (exchange memService)
                             (provider memService) rblocks st4)))
       else Some ?st2)"
    by (rule conjunct2 [THEN conjunct1])
  have fin: "GetBlocks testValidateCid memService memContext ?ks
      (start (memWorld [blkC, blkA] [blkB])) =
     Some \<lparr>world = memWorld [blkC, blkA, blkB] [blkB],
        trace = [EvValidateCid (Cid blkA) None,
                 EvValidateCid (Cid blkBad) (Some (ErrOther ''insecure hash'')),
                 EvValidateCid (Cid blkBad) (Some (ErrOther ''insecure hash'')),
                 EvValidateCid (Cid blkC) None, EvValidateCid (Cid blkB) None,
                 EvGet (Cid blkA) (Inr blkA), EvSend blkA,
                 EvGet (Cid blkC) (Inr blkC), EvSend blkC,
                 EvGet (Cid blkB) (Inl (ErrNotFound (Cid blkB))),
                 EvFetchGetBlocks [Cid blkB] None, EvPut blkB None,
                 EvNotifyNewBlocks [blkB] None, EvProvide (Cid blkB) None, EvSend blkB]\<rparr>"
    unfolding GetBlocks_def g
    by (simp add: getExchangeFetcher_def netLoop.simps call_defs mem_defs)
  note o1 = o [unfolded h, THEN conjunct1] and o2 = o [unfolded h, THEN conjunct2]
  from nd o1 o2 fin show ?thesis
    by (intro conjI)
qed

subsection \<open>\<^verbatim>\<open>getBlocks\<close>: the blocks of the exchange\<close>

lemma selectRecv_trace: "selectRecv ctx rblocks st = (r, st1) \<Longrightarrow> trace st1 = trace st"
  by (auto simp add: selectRecv_def Let_def split: prod.splits if_splits)

lemma callPut_trace: "callPut bs b st = (r, st') \<Longrightarrow> trace st' = trace st @ [EvPut b r]"
  by (auto simp add: callPut_def logEv_def Let_def split: prod.splits)

lemma callNotifyNewBlocks_trace:
  "callNotifyNewBlocks e bs st = (r, st') \<Longrightarrow> trace st' = trace st @ [EvNotifyNewBlocks bs r]"
  by (auto simp add: callNotifyNewBlocks_def logEv_def Let_def split: prod.splits)

lemma callProvide_trace:
  "callProvide p c st = (r, st') \<Longrightarrow> trace st' = trace st @ [EvProvide c r]"
  by (auto simp add: callProvide_def logEv_def Let_def split: prod.splits)

lemma selectSend_trace:
  "selectSend ctx b st = (sent, st') \<Longrightarrow>
   trace st' = trace st @ (if sent then [EvSend b] else [])"
  by (auto simp add: selectSend_def logEv_def Let_def split: prod.splits if_splits)

lemma nothingAfter_clean_prefix:
  "list_all (\<lambda>e. \<not> P e) pre \<Longrightarrow> nothingAfter P (pre @ ext) = nothingAfter P ext"
  by (induction pre) simp_all

lemma netLoop_body_cases:
  assumes "(case selectRecv ctx rblocks st of
        (None, st1) \<Rightarrow> Some st1
      | (Some b, st1) \<Rightarrow>
          (case callPut bs b st1 of
             (Some err, st2) \<Rightarrow> Some st2
           | (None, st2) \<Rightarrow>
               (case (case ex of
                        None \<Rightarrow> (None, st2)
                      | Some e \<Rightarrow> callNotifyNewBlocks e [b] st2) of
                  (Some err, st3) \<Rightarrow> Some st3
                | (None, st3) \<Rightarrow>
                    (case (case prov of
                             None \<Rightarrow> (None, st3)
                           | Some p \<Rightarrow> callProvide p (Cid b) st3) of
                       (Some err, st4) \<Rightarrow> Some st4
                     | (None, st4) \<Rightarrow>
                         (case selectSend ctx b st4 of
                            (sent, st5) \<Rightarrow>
                              if sent then f ctx bs ex prov rblocks st5
                              else Some st5))))) = Some st'"
  shows "(\<exists>pre. trace st' = trace st @ pre \<and> nothingAfter failedCall pre)
       \<or> (\<exists>st5 pre. f ctx bs ex prov rblocks st5 = Some st' \<and> trace st5 = trace st @ pre
             \<and> list_all (\<lambda>e. \<not> failedCall e) pre)"
  using assms
  by (auto simp add: failedCall_def split: prod.splits option.splits if_splits
      dest!: selectRecv_trace callPut_trace callNotifyNewBlocks_trace
        callProvide_trace selectSend_trace)

lemma netLoop_transcript:
  "netLoop ctx bs ex prov rblocks st = Some st' \<Longrightarrow>
   \<exists>ext. trace st' = trace st @ ext \<and> nothingAfter failedCall ext"
proof (induction ctx bs ex prov rblocks st st'
    rule: netLoop.raw_induct [rotated 1, consumes 1, case_names step])
  case (step netLoop' ctx bs ex prov rblocks st st')
  note IH = step(1) and eq = step(2)
  from netLoop_body_cases [where f = netLoop', OF eq] show ?case
  proof
    assume "\<exists>pre. trace st' = trace st @ pre \<and> nothingAfter failedCall pre"
    then show ?thesis .
  next
    assume "\<exists>st5 pre. netLoop' ctx bs ex prov rblocks st5 = Some st' \<and> trace st5 = trace st @ pre
             \<and> list_all (\<lambda>e. \<not> failedCall e) pre"
    then obtain st5 pre where rec: "netLoop' ctx bs ex prov rblocks st5 = Some st'"
      and t5: "trace st5 = trace st @ pre" and clean: "list_all (\<lambda>e. \<not> failedCall e) pre"
      by blast
    from rec have "\<exists>ext. trace st' = trace st5 @ ext \<and> nothingAfter failedCall ext"
      by (rule IH)
    then obtain ext where "trace st' = trace st5 @ ext" "nothingAfter failedCall ext"
      by blast
    with t5 clean have "trace st' = trace st @ (pre @ ext) \<and> nothingAfter failedCall (pre @ ext)"
      by (simp add: nothingAfter_clean_prefix)
    then show ?thesis by blast
  qed
qed

lemma nothingAfter_mono:
  "nothingAfter P tr \<Longrightarrow> (\<And>e. Q e \<Longrightarrow> P e) \<Longrightarrow> nothingAfter Q tr"
  by (induction tr) (auto split: if_splits)

lemma netLoop_stops_at_failure:
  assumes "netLoop ctx bs ex prov rblocks st = Some st'"
  shows "nothingAfter failedPut (newEvents st st')"
    and "nothingAfter failedNotify (newEvents st st')"
    and "nothingAfter failedProvide (newEvents st st')"
proof -
  from netLoop_transcript [OF assms] obtain ext where
    e: "trace st' = trace st @ ext" and n: "nothingAfter failedCall ext"
    by blast
  from e have ne: "newEvents st st' = ext" by (rule newEvents_append)
  from n show "nothingAfter failedPut (newEvents st st')"
    unfolding ne by (rule nothingAfter_mono) (simp add: failedCall_def)
  from n show "nothingAfter failedNotify (newEvents st st')"
    unfolding ne by (rule nothingAfter_mono) (simp add: failedCall_def)
  from n show "nothingAfter failedProvide (newEvents st st')"
    unfolding ne by (rule nothingAfter_mono) (simp add: failedCall_def)
qed

text \<open>
  C3. In the local phase an error of the store's \<^verbatim>\<open>Get\<close>, of whatever kind, puts the
  identifier on the list of misses and the loop goes on with the next identifier; a
  local phase that runs to its end has called \<^verbatim>\<open>Get\<close> on every identifier, and its misses
  are exactly the identifiers whose \<^verbatim>\<open>Get\<close> returned an error, which is the list handed
  to the fetcher's \<^verbatim>\<open>GetBlocks\<close>. In the loop over the exchange's channel a failed
  \<^verbatim>\<open>Put\<close> of the block just received makes the goroutine return at once, with nothing
  sent; and in every run of that loop that returns, a failed \<^verbatim>\<open>Put\<close> is the last event.
\<close>

theorem getBlocks_store_errors:
  "(bs_Get bs c (world st) = (Inl err, w1) \<longrightarrow>
      localPhase ctx bs (c # ks) ms0 st =
        localPhase ctx bs ks (ms0 @ [c])
          (st\<lparr>world := w1, trace := trace st @ [EvGet c (Inl err)]\<rparr>))
   \<and> (localPhase ctx bs ks [] st = ((True, ms), st') \<longrightarrow>
        gets (newEvents st st') = ks \<and> ms = failedGets (newEvents st st'))
   \<and> (validatePhase ValidateCid (allowlist bsvc) ks0 st0 = (ks', stV)
        \<and> localPhase ctx (blockstore bsvc) ks' [] stV = ((True, msF), stL)
        \<and> msF \<noteq> [] \<and> fetchFactory stL = (Some f, stF)
        \<and> f_GetBlocks f msF (world stF) = (Inr rblocks, w4) \<longrightarrow>
        getBlocks ValidateCid ctx ks0 bsvc fetchFactory st0 =
          netLoop ctx (blockstore bsvc) (exchange bsvc) (provider bsvc) rblocks
            (stF\<lparr>world := w4, trace := trace stF @ [EvFetchGetBlocks msF None]\<rparr>))
   \<and> (selectRecv ctx rblocks stN = (Some b, stR) \<and> bs_Put bs b (world stR) = (Some errP, w2) \<longrightarrow>
        netLoop ctx bs ex prov rblocks stN =
          Some (stR\<lparr>world := w2, trace := trace stN @ [EvPut b (Some errP)]\<rparr>))
   \<and> (netLoop ctx bs ex prov rblocks stN = Some stE \<longrightarrow>
        nothingAfter failedPut (newEvents stN stE))"
proof (intro conjI impI)
  assume "bs_Get bs c (world st) = (Inl err, w1)"
  then show "localPhase ctx bs (c # ks) ms0 st =
        localPhase ctx bs ks (ms0 @ [c])
          (st\<lparr>world := w1, trace := trace st @ [EvGet c (Inl err)]\<rparr>)"
    by (simp add: callGet_eq)
next
  assume a: "localPhase ctx bs ks [] st = ((True, ms), st')"
  from localPhase_transcript [OF a] obtain ext where
    e: "trace st' = trace st @ ext" "ms = failedGets ext" "gets ext = ks"
    by auto
  from e(1) have n: "newEvents st st' = ext" by (rule newEvents_append)
  from e show "gets (newEvents st st') = ks" unfolding n by simp
  from e show "ms = failedGets (newEvents st st')" unfolding n by simp
next
  assume "validatePhase ValidateCid (allowlist bsvc) ks0 st0 = (ks', stV)
        \<and> localPhase ctx (blockstore bsvc) ks' [] stV = ((True, msF), stL)
        \<and> msF \<noteq> [] \<and> fetchFactory stL = (Some f, stF)
        \<and> f_GetBlocks f msF (world stF) = (Inr rblocks, w4)"
  then show "getBlocks ValidateCid ctx ks0 bsvc fetchFactory st0 =
          netLoop ctx (blockstore bsvc) (exchange bsvc) (provider bsvc) rblocks
            (stF\<lparr>world := w4, trace := trace stF @ [EvFetchGetBlocks msF None]\<rparr>)"
    by (simp add: getBlocks_def grabAllowlistFromBlockservice_def
        grabProviderFromBlockservice_def callFetchGetBlocks_def logEv_def)
next
  assume a: "selectRecv ctx rblocks stN = (Some b, stR) \<and> bs_Put bs b (world stR) = (Some errP, w2)"
  then have "trace stR = trace stN" by (auto dest: selectRecv_trace)
  with a show "netLoop ctx bs ex prov rblocks stN =
          Some (stR\<lparr>world := w2, trace := trace stN @ [EvPut b (Some errP)]\<rparr>)"
    by (subst netLoop.simps) (simp add: callPut_def logEv_def)
next
  assume "netLoop ctx bs ex prov rblocks stN = Some stE"
  then show "nothingAfter failedPut (newEvents stN stE)"
    by (rule netLoop_stops_at_failure)
qed

theorem getBlocks_store_errors_witness:
  "localPhase memContext memStore [Cid blkA, Cid blkB] [] (start ioWorld) =
     ((True, [Cid blkA, Cid blkB]),
      \<lparr>world = ioWorld,
       trace = [EvGet (Cid blkA) (Inl (ErrOther ''io'')), EvGet (Cid blkB) (Inl (ErrOther ''io''))]\<rparr>)
   \<and> gets (newEvents (start ioWorld)
       \<lparr>world = ioWorld,
        trace = [EvGet (Cid blkA) (Inl (ErrOther ''io'')), EvGet (Cid blkB) (Inl (ErrOther ''io''))]\<rparr>)
      = [Cid blkA, Cid blkB]
   \<and> failedGets (newEvents (start ioWorld)
       \<lparr>world = ioWorld,
        trace = [EvGet (Cid blkA) (Inl (ErrOther ''io'')), EvGet (Cid blkB) (Inl (ErrOther ''io''))]\<rparr>)
      = [Cid blkA, Cid blkB]
   \<and> netLoop memContext memStore (Some memExchange) (Some memProvider) memRecv (start putFailWorld) =
       Some \<lparr>world = putFailWorld\<lparr>inflight := [blkC]\<rparr>,
             trace = [EvPut blkB (Some (ErrOther ''put''))]\<rparr>"
proof -
  let ?stL = "\<lparr>world = ioWorld,
       trace = [EvGet (Cid blkA) (Inl (ErrOther ''io'')), EvGet (Cid blkB) (Inl (ErrOther ''io''))]\<rparr>"
  let ?stR = "\<lparr>world = putFailWorld\<lparr>inflight := [blkC]\<rparr>, trace = []\<rparr>"
  have l: "localPhase memContext memStore [Cid blkA, Cid blkB] [] (start ioWorld) =
     ((True, [Cid blkA, Cid blkB]), ?stL)"
    by (simp add: call_defs mem_defs ioWorld_def)
  have r: "selectRecv memContext memRecv (start putFailWorld) = (Some blkB, ?stR)"
    by (simp add: call_defs mem_defs putFailWorld_def)
  have p: "bs_Put memStore blkB (world ?stR) =
      (Some (ErrOther ''put''), putFailWorld\<lparr>inflight := [blkC]\<rparr>)"
    by (simp add: mem_defs putFailWorld_def)
  note a = getBlocks_store_errors
    [where ctx = memContext and bs = memStore and ks = "[Cid blkA, Cid blkB]"
       and st = "start ioWorld" and ms = "[Cid blkA, Cid blkB]" and st' = ?stL,
     THEN conjunct2, THEN conjunct1, THEN mp, OF l]
  note b = getBlocks_store_errors
    [where ctx = memContext and bs = memStore
       and rblocks = memRecv and stN = "start putFailWorld" and b = blkB and stR = ?stR
       and errP = "ErrOther ''put''" and ?w2.0 = "putFailWorld\<lparr>inflight := [blkC]\<rparr>"
       and ex = "Some memExchange" and prov = "Some memProvider",
     THEN conjunct2, THEN conjunct2, THEN conjunct2, THEN conjunct1, THEN mp, OF conjI [OF r p]]
  from l a b show ?thesis
    by (simp add: start_def)
qed

text \<open>
  C4. In the loop over the exchange's channel, once the received block is written: a
  failed notification makes the goroutine return at once, and so does a failed
  advertisement after a notification that succeeded (or with no exchange configured);
  in both cases the block is not sent and the loop is over, so no later block is sent
  either. In every run of the loop that returns, nothing follows a failed notification
  or a failed advertisement in the transcript.
\<close>

theorem netLoop_notify_provide_failure:
  "(selectRecv ctx rblocks st = (Some b, st1) \<and> bs_Put bs b (world st1) = (None, w2)
      \<and> ex = Some e \<and> ex_NotifyNewBlocks e [b] w2 = (Some err, w3) \<longrightarrow>
        netLoop ctx bs ex prov rblocks st =
          Some (st1\<lparr>world := w3,
                    trace := trace st @ [EvPut b None, EvNotifyNewBlocks [b] (Some err)]\<rparr>))
   \<and> (selectRecv ctx rblocks st = (Some b, st1) \<and> bs_Put bs b (world st1) = (None, w2)
      \<and> (case ex of None \<Rightarrow> w3 = w2
                   | Some e \<Rightarrow> ex_NotifyNewBlocks e [b] w2 = (None, w3))
      \<and> prov = Some p \<and> p_Provide p (Cid b) w3 = (Some err, w4) \<longrightarrow>
        netLoop ctx bs ex prov rblocks st =
          Some (st1\<lparr>world := w4,
                    trace := trace st @ [EvPut b None]
                      @ (case ex of None \<Rightarrow> [] | Some e \<Rightarrow> [EvNotifyNewBlocks [b] None])
                      @ [EvProvide (Cid b) (Some err)]\<rparr>))
   \<and> (netLoop ctx bs ex prov rblocks st = Some st' \<longrightarrow>
        nothingAfter failedNotify (newEvents st st')
        \<and> nothingAfter failedProvide (newEvents st st'))"
proof (intro conjI impI)
  assume a: "selectRecv ctx rblocks st = (Some b, st1) \<and> bs_Put bs b (world st1) = (None, w2)
      \<and> ex = Some e \<and> ex_NotifyNewBlocks e [b] w2 = (Some err, w3)"
  then have "trace st1 = trace st" by (auto dest: selectRecv_trace)
  with a show "netLoop ctx bs ex prov rblocks st =
          Some (st1\<lparr>world := w3,
                    trace := trace st @ [EvPut b None, EvNotifyNewBlocks [b] (Some err)]\<rparr>)"
    by (subst netLoop.simps) (simp add: callPut_def callNotifyNewBlocks_def logEv_def)
next
  assume a: "selectRecv ctx rblocks st = (Some b, st1) \<and> bs_Put bs b (world st1) = (None, w2)
      \<and> (case ex of None \<Rightarrow> w3 = w2
                   | Some e \<Rightarrow> ex_NotifyNewBlocks e [b] w2 = (None, w3))
      \<and> prov = Some p \<and> p_Provide p (Cid b) w3 = (Some err, w4)"
  then have "trace st1 = trace st" by (auto dest: selectRecv_trace)
  with a show "netLoop ctx bs ex prov rblocks st =
          Some (st1\<lparr>world := w4,
                    trace := trace st @ [EvPut b None]
                      @ (case ex of None \<Rightarrow> [] | Some e \<Rightarrow> [EvNotifyNewBlocks [b] None])
                      @ [EvProvide (Cid b) (Some err)]\<rparr>)"
    by (subst netLoop.simps)
      (auto simp add: callPut_def callNotifyNewBlocks_def callProvide_def logEv_def
        split: option.splits)
next
  assume a: "netLoop ctx bs ex prov rblocks st = Some st'"
  then show "nothingAfter failedNotify (newEvents st st')"
    by (rule netLoop_stops_at_failure)
  from a show "nothingAfter failedProvide (newEvents st st')"
    by (rule netLoop_stops_at_failure)
qed

theorem netLoop_notify_provide_failure_witness:
  "netLoop memContext memStore (Some memExchange) (Some memProvider) memRecv (start notifyFailWorld) =
     Some \<lparr>world = notifyFailWorld\<lparr>stored := [blkB], inflight := [blkC]\<rparr>,
           trace = [EvPut blkB None, EvNotifyNewBlocks [blkB] (Some (ErrOther ''notify''))]\<rparr>
   \<and> netLoop memContext memStore (Some memExchange) (Some memProvider) memRecv (start provideFailWorld) =
     Some \<lparr>world = provideFailWorld\<lparr>stored := [blkB], inflight := [blkC]\<rparr>,
           trace = [EvPut blkB None, EvNotifyNewBlocks [blkB] None,
                    EvProvide (Cid blkB) (Some (ErrOther ''provide''))]\<rparr>"
proof -
  let ?n1 = "\<lparr>world = notifyFailWorld\<lparr>inflight := [blkC]\<rparr>, trace = []\<rparr>"
  let ?p1 = "\<lparr>world = provideFailWorld\<lparr>inflight := [blkC]\<rparr>, trace = []\<rparr>"
  have "selectRecv memContext memRecv (start notifyFailWorld) = (Some blkB, ?n1)
      \<and> bs_Put memStore blkB (world ?n1) =
          (None, notifyFailWorld\<lparr>stored := [blkB], inflight := [blkC]\<rparr>)
      \<and> Some memExchange = Some memExchange
      \<and> ex_NotifyNewBlocks memExchange [blkB] (notifyFailWorld\<lparr>stored := [blkB], inflight := [blkC]\<rparr>) =
          (Some (ErrOther ''notify''), notifyFailWorld\<lparr>stored := [blkB], inflight := [blkC]\<rparr>)"
    by (simp add: call_defs mem_defs notifyFailWorld_def)
  with netLoop_notify_provide_failure
    [where ctx = memContext and bs = memStore and rblocks = memRecv
       and st = "start notifyFailWorld" and b = blkB and ?st1.0 = ?n1
       and ?w2.0 = "notifyFailWorld\<lparr>stored := [blkB], inflight := [blkC]\<rparr>"
       and ?w3.0 = "notifyFailWorld\<lparr>stored := [blkB], inflight := [blkC]\<rparr>"
       and ex = "Some memExchange" and e = memExchange and err = "ErrOther ''notify''"
       and prov = "Some memProvider"]
  have n: "netLoop memContext memStore (Some memExchange) (Some memProvider) memRecv
      (start notifyFailWorld) =
     Some (?n1\<lparr>world := notifyFailWorld\<lparr>stored := [blkB], inflight := [blkC]\<rparr>,
        trace := trace (start notifyFailWorld) @
          [EvPut blkB None, EvNotifyNewBlocks [blkB] (Some (ErrOther ''notify''))]\<rparr>)"
    by blast
  have "selectRecv memContext memRecv (start provideFailWorld) = (Some blkB, ?p1)
      \<and> bs_Put memStore blkB (world ?p1) =
          (None, provideFailWorld\<lparr>stored := [blkB], inflight := [blkC]\<rparr>)
      \<and> (case Some memExchange of
            None \<Rightarrow> provideFailWorld\<lparr>stored := [blkB], inflight := [blkC]\<rparr> =
              provideFailWorld\<lparr>stored := [blkB], inflight := [blkC]\<rparr>
          | Some e \<Rightarrow> ex_NotifyNewBlocks e [blkB]
              (provideFailWorld\<lparr>stored := [blkB], inflight := [blkC]\<rparr>) =
              (None, provideFailWorld\<lparr>stored := [blkB], inflight := [blkC]\<rparr>))
      \<and> Some memProvider = Some memProvider
      \<and> p_Provide memProvider (Cid blkB) (provideFailWorld\<lparr>stored := [blkB], inflight := [blkC]\<rparr>) =
          (Some (ErrOther ''provide''), provideFailWorld\<lparr>stored := [blkB], inflight := [blkC]\<rparr>)"
    by (simp add: call_defs mem_defs provideFailWorld_def)
  with netLoop_notify_provide_failure
    [where ctx = memContext and bs = memStore and rblocks = memRecv
       and st = "start provideFailWorld" and b = blkB and ?st1.0 = ?p1
       and ?w2.0 = "provideFailWorld\<lparr>stored := [blkB], inflight := [blkC]\<rparr>"
       and ?w3.0 = "provideFailWorld\<lparr>stored := [blkB], inflight := [blkC]\<rparr>"
       and ?w4.0 = "provideFailWorld\<lparr>stored := [blkB], inflight := [blkC]\<rparr>"
       and ex = "Some memExchange" and p = memProvider and err = "ErrOther ''provide''"
       and prov = "Some memProvider"]
  have p: "netLoop memContext memStore (Some memExchange) (Some memProvider) memRecv
      (start provideFailWorld) =
     Some (?p1\<lparr>world := provideFailWorld\<lparr>stored := [blkB], inflight := [blkC]\<rparr>,
        trace := trace (start provideFailWorld) @ [EvPut blkB None]
          @ (case Some memExchange of None \<Rightarrow> [] | Some e \<Rightarrow> [EvNotifyNewBlocks [blkB] None])
          @ [EvProvide (Cid blkB) (Some (ErrOther ''provide''))]\<rparr>)"
    by blast
  from n p show ?thesis
    by (simp add: start_def)
qed

subsection \<open>\<^verbatim>\<open>getBlocks\<close>: the fetch factory\<close>

text \<open>
  C7, what the code does. \<^verbatim>\<open>getBlocks\<close> calls the fetch factory before it looks at the
  list of misses: when the local phase ends with no miss, the goroutine returns in the
  state the factory left. Through a session this creates the session's fetcher although
  every block was found locally.
\<close>

theorem getBlocks_fetchFactory_without_misses:
  assumes "validatePhase ValidateCid (allowlist bsvc) ks st = (ks', st1)"
    and "localPhase ctx (blockstore bsvc) ks' [] st1 = ((True, []), st2)"
  shows "getBlocks ValidateCid ctx ks bsvc fetchFactory st = Some (snd (fetchFactory st2))"
  using assms
  by (simp add: getBlocks_def grabAllowlistFromBlockservice_def split: prod.splits)

theorem getBlocks_fetchFactory_without_misses_witness:
  "map_option (\<lambda>st. (trace st, createSession (session st)))
     (Session_GetBlocks testValidateCid memContext [Cid blkA] (sessStart (memWorld [blkA] []))) =
   Some ([EvValidateCid (Cid blkA) None, EvValidateCid (Cid blkA) None,
          EvGet (Cid blkA) (Inr blkA), EvSend blkA, EvNewSession], True)"
proof -
  let ?st1 = "(sessStart (memWorld [blkA] []))\<lparr>trace :=
      [EvValidateCid (Cid blkA) None, EvValidateCid (Cid blkA) None]\<rparr>"
  let ?st2 = "(sessStart (memWorld [blkA] []))\<lparr>trace :=
      [EvValidateCid (Cid blkA) None, EvValidateCid (Cid blkA) None,
       EvGet (Cid blkA) (Inr blkA), EvSend blkA]\<rparr>"
  have v: "validatePhase testValidateCid (allowlist memService) [Cid blkA]
      (sessStart (memWorld [blkA] [])) = ([Cid blkA], ?st1)"
    by (simp add: validatePhase_def call_defs mem_defs sessStart_def)
  have l: "localPhase memContext (blockstore memService) [Cid blkA] [] ?st1 = ((True, []), ?st2)"
    by (simp add: call_defs mem_defs sessStart_def)
  from getBlocks_fetchFactory_without_misses
    [where ValidateCid = testValidateCid and bsvc = memService and ks = "[Cid blkA]"
       and st = "sessStart (memWorld [blkA] [])" and ks' = "[Cid blkA]" and ?st1.0 = ?st1
       and ctx = memContext and ?st2.0 = ?st2 and fetchFactory = grabSession, OF v l]
  show ?thesis
    by (simp add: Session_GetBlocks_def sessStart_def NewSession_def grabSession_def
        callNewSession_def logEv_def memService_def memExchange_def)
qed

subsection \<open>Deleting\<close>

text \<open>
  C9. \<^verbatim>\<open>DeleteBlock\<close> takes no validator at all: for every identifier it makes the one
  call to the store's \<^verbatim>\<open>DeleteBlock\<close>, returns what that call returned and leaves the world
  that call left; its transcript gains this one event, so nothing is validated and
  nothing is notified or advertised.
\<close>

theorem DeleteBlock_passes_through:
  "DeleteBlock s c st =
     (fst (bs_DeleteBlock (blockstore s) c (world st)),
      st\<lparr>world := snd (bs_DeleteBlock (blockstore s) c (world st)),
         trace := trace st @ [EvDeleteBlock c (fst (bs_DeleteBlock (blockstore s) c (world st)))]\<rparr>)"
  by (simp add: DeleteBlock_def callDeleteBlock_def logEv_def Let_def split: prod.splits)

theorem DeleteBlock_passes_through_witness:
  "testValidateCid (allowlist memService) (Cid blkBad) = Some (ErrOther ''insecure hash'')
   \<and> DeleteBlock memService (Cid blkBad) (start (memWorld [blkA, blkBad] [])) =
       (None, \<lparr>world = memWorld [blkA] [], trace = [EvDeleteBlock (Cid blkBad) None]\<rparr>)"
  using DeleteBlock_passes_through [of memService "Cid blkBad" "start (memWorld [blkA, blkBad] [])"]
  by (simp add: mem_defs)

end
